theory Spec2Isabelle
  imports Complex_Main
begin

section \<open>JavaScript numbers\<close>

text \<open>
  The tracker in \<^verbatim>\<open>script.js\<close> computes with JavaScript numbers, which are IEEE 754 binary64
  values. A number is modelled as NaN, one of the two infinities, or a finite real; the
  result of every arithmetic operation is rounded to binary64. The sign of a zero is not
  modelled: a zero divisor is read as \<open>+0\<close>. In \<^verbatim>\<open>calculateJointAngle\<close> the only divisor is a
  product of square roots, which is never \<open>-0\<close>.
\<close>

datatype jsnum = NaN | PosInf | NegInf | Fin real

fun signed_inf :: "bool \<Rightarrow> jsnum" where
  "signed_inf True = PosInf"
| "signed_inf False = NegInf"

subsection \<open>Rounding to binary64\<close>

text \<open>The nearest integer, a tie going to the even one.\<close>

definition nearest_even :: "real \<Rightarrow> int" where
  "nearest_even y =
     (let f = \<lfloor>y\<rfloor>; d = y - of_int f
      in if d < 1 / 2 then f else if 1 / 2 < d then f + 1
         else if even f then f else f + 1)"

text \<open>
  A positive magnitude \<open>x\<close> with \<open>2\<^sup>k \<le> x < 2\<^sup>k\<^sup>+\<^sup>1\<close> is rounded to the nearest multiple of
  \<open>2\<^sup>k\<^sup>-\<^sup>5\<^sup>2\<close> (53 significant bits), and to the nearest multiple of \<open>2\<^sup>-\<^sup>1\<^sup>0\<^sup>7\<^sup>4\<close> in the subnormal
  range.
\<close>

definition round_magnitude :: "real \<Rightarrow> real" where
  "round_magnitude x =
     (let q = 2 powi (max (\<lfloor>log 2 x\<rfloor> - 52) (- 1074))
      in of_int (nearest_even (x / q)) * q)"

text \<open>
  Rounding to nearest, ties to even: the magnitude is rounded and the sign is kept. A
  magnitude that rounds to \<open>2\<^sup>1\<^sup>0\<^sup>2\<^sup>4\<close> or more overflows to an infinity.
\<close>

definition binary64 :: "real \<Rightarrow> jsnum" where
  "binary64 x =
     (if x = 0 then Fin 0
      else if 2 ^ 1024 \<le> round_magnitude \<bar>x\<bar> then signed_inf (0 < x)
      else Fin (if 0 < x then round_magnitude \<bar>x\<bar> else - round_magnitude \<bar>x\<bar>))"

subsection \<open>Operators\<close>

text \<open>\<^verbatim>\<open>x + y\<close>\<close>

fun jadd :: "jsnum \<Rightarrow> jsnum \<Rightarrow> jsnum" where
  "jadd (Fin a) (Fin b) = binary64 (a + b)"
| "jadd NaN _ = NaN"
| "jadd _ NaN = NaN"
| "jadd PosInf NegInf = NaN"
| "jadd NegInf PosInf = NaN"
| "jadd PosInf _ = PosInf"
| "jadd _ PosInf = PosInf"
| "jadd NegInf _ = NegInf"
| "jadd _ NegInf = NegInf"

text \<open>\<^verbatim>\<open>x - y\<close>\<close>

fun jsub :: "jsnum \<Rightarrow> jsnum \<Rightarrow> jsnum" where
  "jsub (Fin a) (Fin b) = binary64 (a - b)"
| "jsub NaN _ = NaN"
| "jsub _ NaN = NaN"
| "jsub PosInf PosInf = NaN"
| "jsub NegInf NegInf = NaN"
| "jsub PosInf _ = PosInf"
| "jsub _ NegInf = PosInf"
| "jsub NegInf _ = NegInf"
| "jsub _ PosInf = NegInf"

text \<open>\<^verbatim>\<open>x * y\<close>\<close>

fun jmul :: "jsnum \<Rightarrow> jsnum \<Rightarrow> jsnum" where
  "jmul (Fin a) (Fin b) = binary64 (a * b)"
| "jmul NaN _ = NaN"
| "jmul _ NaN = NaN"
| "jmul (Fin a) PosInf = (if a = 0 then NaN else signed_inf (0 < a))"
| "jmul (Fin a) NegInf = (if a = 0 then NaN else signed_inf (a < 0))"
| "jmul PosInf (Fin b) = (if b = 0 then NaN else signed_inf (0 < b))"
| "jmul NegInf (Fin b) = (if b = 0 then NaN else signed_inf (b < 0))"
| "jmul PosInf PosInf = PosInf"
| "jmul NegInf NegInf = PosInf"
| "jmul PosInf NegInf = NegInf"
| "jmul NegInf PosInf = NegInf"

text \<open>\<^verbatim>\<open>x / y\<close>: \<open>0 / 0\<close> is NaN, any other finite value over zero is an infinity.\<close>

fun jdiv :: "jsnum \<Rightarrow> jsnum \<Rightarrow> jsnum" where
  "jdiv (Fin a) (Fin b) =
     (if b \<noteq> 0 then binary64 (a / b) else if a = 0 then NaN else signed_inf (0 < a))"
| "jdiv NaN _ = NaN"
| "jdiv _ NaN = NaN"
| "jdiv (Fin a) _ = Fin 0"
| "jdiv PosInf (Fin b) = signed_inf (0 \<le> b)"
| "jdiv NegInf (Fin b) = signed_inf (b < 0)"
| "jdiv PosInf _ = NaN"
| "jdiv NegInf _ = NaN"

text \<open>\<^verbatim>\<open>x < y\<close> and \<^verbatim>\<open>x > y\<close>: false as soon as one side is NaN.\<close>

fun jlt :: "jsnum \<Rightarrow> jsnum \<Rightarrow> bool" where
  "jlt (Fin a) (Fin b) = (a < b)"
| "jlt NaN _ = False"
| "jlt _ NaN = False"
| "jlt _ NegInf = False"
| "jlt PosInf _ = False"
| "jlt NegInf _ = True"
| "jlt _ PosInf = True"

definition jgt :: "jsnum \<Rightarrow> jsnum \<Rightarrow> bool" where
  "jgt a b = jlt b a"

text \<open>\<^verbatim>\<open>x == y\<close> on numbers: NaN equals nothing, not even itself.\<close>

fun jeq :: "jsnum \<Rightarrow> jsnum \<Rightarrow> bool" where
  "jeq NaN _ = False"
| "jeq _ NaN = False"
| "jeq a b = (a = b)"

subsection \<open>The functions of \<^verbatim>\<open>Math\<close>\<close>

text \<open>
  \<^verbatim>\<open>Math.sqrt\<close> is correctly rounded by the standard. \<^verbatim>\<open>Math.pow(x, 2)\<close> and \<^verbatim>\<open>Math.acos\<close> are
  modelled as correctly rounded too; an engine may differ from that in the last place. The
  statements below use these two only where that cannot matter: where the exact result is
  representable (the square of a small integer, \<open>acos 1 = 0\<close>), outside the domain of
  \<^verbatim>\<open>acos\<close>, under a change of sign of the argument of the square, and through bounds that
  are several degrees wide.
\<close>

text \<open>\<^verbatim>\<open>Math.pow(x, 2)\<close>\<close>

fun Math_pow2 :: "jsnum \<Rightarrow> jsnum" where
  "Math_pow2 (Fin a) = binary64 (a\<^sup>2)"
| "Math_pow2 NaN = NaN"
| "Math_pow2 _ = PosInf"

text \<open>\<^verbatim>\<open>Math.sqrt(x)\<close>\<close>

fun Math_sqrt :: "jsnum \<Rightarrow> jsnum" where
  "Math_sqrt (Fin a) = (if a < 0 then NaN else binary64 (sqrt a))"
| "Math_sqrt PosInf = PosInf"
| "Math_sqrt _ = NaN"

text \<open>\<^verbatim>\<open>Math.acos(x)\<close>: NaN outside \<open>[-1, 1]\<close>.\<close>

fun Math_acos :: "jsnum \<Rightarrow> jsnum" where
  "Math_acos (Fin a) = (if - 1 \<le> a \<and> a \<le> 1 then binary64 (arccos a) else NaN)"
| "Math_acos _ = NaN"

text \<open>\<^verbatim>\<open>Math.round(x)\<close>: the nearest integer, a tie going up, which is \<open>\<lfloor>x + 1/2\<rfloor>\<close>.\<close>

fun Math_round :: "jsnum \<Rightarrow> jsnum" where
  "Math_round (Fin a) = Fin (of_int (round a))"
| "Math_round n = n"

text \<open>\<^verbatim>\<open>Math.PI\<close> is the binary64 value nearest to \<open>\<pi>\<close>, \<open>884279719003555 / 2\<^sup>4\<^sup>8\<close>.\<close>

definition Math_PI :: jsnum where
  "Math_PI = Fin (884279719003555 / 2 ^ 48)"

section \<open>The angle at a joint\<close>

text \<open>
  \<^verbatim>\<open>calculateJointAngle(x1, y1, x2, y2, x3, y3)\<close>: the law of cosines for the angle at
  \<open>(x2, y2)\<close>, in degrees.
\<close>

definition calculateJointAngle ::
  "jsnum \<Rightarrow> jsnum \<Rightarrow> jsnum \<Rightarrow> jsnum \<Rightarrow> jsnum \<Rightarrow> jsnum \<Rightarrow> jsnum" where
  "calculateJointAngle x1 y1 x2 y2 x3 y3 =
     (let a = Math_sqrt (jadd (Math_pow2 (jsub x2 x3)) (Math_pow2 (jsub y2 y3)));
          b = Math_sqrt (jadd (Math_pow2 (jsub x1 x3)) (Math_pow2 (jsub y1 y3)));
          c = Math_sqrt (jadd (Math_pow2 (jsub x1 x2)) (Math_pow2 (jsub y1 y2)));
          angleRad = Math_acos (jdiv (jsub (jadd (jmul a a) (jmul c c)) (jmul b b))
                                     (jmul (jmul (Fin 2) a) c))
      in jmul angleRad (jdiv (Fin 180) Math_PI))"

text \<open>
  What a side of the triangle can be: NaN, plus infinity, or a finite value that came out
  of a rounding. Used in the proofs only.
\<close>

definition side_value :: "jsnum \<Rightarrow> bool" where
  "side_value s \<longleftrightarrow> s = NaN \<or> s = PosInf \<or> (\<exists>x d. s = Fin d \<and> binary64 x = Fin d)"

section \<open>The program state\<close>

text \<open>
  A joint is an object \<^verbatim>\<open>{ x, y }\<close>; the fields are named \<open>px\<close> and \<open>py\<close> here.
  \<^verbatim>\<open>joints\<close> holds the six joints the detection writes on every frame.
\<close>

record point =
  px :: jsnum
  py :: jsnum

record joint_frame =
  shoulders :: point
  elbows :: point
  wrists :: point
  hips :: point
  knees :: point
  ankles :: point

text \<open>
  \<^verbatim>\<open>poseState\<close> and \<^verbatim>\<open>lastPoseState\<close> hold \<^verbatim>\<open>'down'\<close>, \<^verbatim>\<open>'up'\<close> or \<^verbatim>\<open>null\<close>; \<^verbatim>\<open>null\<close> is
  \<open>None\<close>. It stands both for "no frame seen yet" and for an angle that is neither down
  nor up.
\<close>

datatype pose = Down | Up

text \<open>
  The global variables the tracker reads and writes, and the two page elements it reports
  to. \<^verbatim>\<open>repsCount\<close> only ever grows by one from zero; it is a natural number here (JavaScript
  represents these integers exactly below \<open>2\<^sup>5\<^sup>3\<close>). The webcam stream, the canvas, the
  timer and the exercise-details panel neither read nor write the tracker's variables and
  are left out.
\<close>

record app =
  isRunning :: bool
  repsCount :: nat
  lastPoseState :: "pose option"
  currentAngle :: jsnum
  joints :: joint_frame
  postureFeedbackText :: string
  postureFeedbackClass :: string
  repsCountText :: nat

definition origin :: point where
  "origin = \<lparr> px = Fin 0, py = Fin 0 \<rparr>"

text \<open>
  The state once the script has loaded and \<^verbatim>\<open>initUI\<close> has run. The class of the feedback
  element at that moment comes from the page, not from the script; it is taken as empty, and
  no statement below depends on it.
\<close>

definition loaded :: app where
  "loaded =
     \<lparr> isRunning = False, repsCount = 0, lastPoseState = None, currentAngle = Fin 0,
       joints = \<lparr> shoulders = origin, elbows = origin, wrists = origin,
                  hips = origin, knees = origin, ankles = origin \<rparr>,
       postureFeedbackText = ''Ready to start'', postureFeedbackClass = [],
       repsCountText = 0 \<rparr>"

section \<open>One frame\<close>

text \<open>
  \<^verbatim>\<open>calculateAngle\<close> stores the rounded elbow angle in \<^verbatim>\<open>currentAngle\<close>. \<open>setCurrentAngle\<close> is
  its assignment \<^verbatim>\<open>currentAngle = Math.round(angle)\<close>. The label that shows the angle is
  not modelled.
\<close>

definition setCurrentAngle :: "jsnum \<Rightarrow> app \<Rightarrow> app" where
  "setCurrentAngle angle s = s\<lparr> currentAngle := Math_round angle \<rparr>"

definition calculateAngle :: "app \<Rightarrow> app" where
  "calculateAngle s =
     (let angle = calculateJointAngle
            (px (shoulders (joints s))) (py (shoulders (joints s)))
            (px (elbows (joints s))) (py (elbows (joints s)))
            (px (wrists (joints s))) (py (wrists (joints s)))
      in setCurrentAngle angle s)"

text \<open>
  The \<^verbatim>\<open>if\<close> chain of \<^verbatim>\<open>checkExerciseForm\<close>: the value it leaves in \<^verbatim>\<open>poseState\<close>, and the
  text and class it gives the feedback element.
\<close>

definition classifyPose :: "jsnum \<Rightarrow> pose option \<times> string \<times> string" where
  "classifyPose angle =
     (if jlt angle (Fin 90) then
        (Some Down, ''Good form - Push Up Bottom Position'', ''feedback-text feedback-correct'')
      else if jgt angle (Fin 160) then
        (Some Up, ''Good form - Push Up Top Position'', ''feedback-text feedback-correct'')
      else
        (None, ''Continue your movement'', ''feedback-text''))"

definition checkExerciseForm :: "app \<Rightarrow> app" where
  "checkExerciseForm s =
     (case classifyPose (currentAngle s) of (poseState, text, cls) \<Rightarrow>
        let s1 = s\<lparr> postureFeedbackText := text, postureFeedbackClass := cls \<rparr>;
            s2 = (if lastPoseState s1 = Some Down \<and> poseState = Some Up
                  then s1\<lparr> repsCount := repsCount s1 + 1, repsCountText := repsCount s1 + 1 \<rparr>
                  else s1)
        in s2\<lparr> lastPoseState := poseState \<rparr>)"

text \<open>
  \<^verbatim>\<open>detectPose\<close>: one animation frame. \<open>frame\<close> is what \<^verbatim>\<open>simulateJointDetection\<close> writes
  into \<^verbatim>\<open>joints\<close> on this frame (it depends on the clock and the canvas size only).
\<close>

definition detectPose :: "joint_frame \<Rightarrow> app \<Rightarrow> app" where
  "detectPose frame s =
     (if \<not> isRunning s then s
      else checkExerciseForm (calculateAngle (s\<lparr> joints := frame \<rparr>)))"

text \<open>
  A tick of the tracker on a given joint angle: the angle is rounded into \<^verbatim>\<open>currentAngle\<close>
  and \<^verbatim>\<open>checkExerciseForm\<close> runs. \<open>ticks\<close> feeds a sequence of angles, oldest first.
\<close>

definition tick :: "jsnum \<Rightarrow> app \<Rightarrow> app" where
  "tick angle s = checkExerciseForm (setCurrentAngle angle s)"

fun ticks :: "jsnum list \<Rightarrow> app \<Rightarrow> app" where
  "ticks [] s = s"
| "ticks (angle # angles) s = ticks angles (tick angle s)"

text \<open>The value \<^verbatim>\<open>poseState\<close> takes on a tick with the given joint angle.\<close>

definition phase :: "jsnum \<Rightarrow> pose option" where
  "phase angle = fst (classifyPose (Math_round angle))"

section \<open>Starting and stopping\<close>

text \<open>
  \<^verbatim>\<open>startExercise\<close> asks for the webcam. When access is granted and the video's metadata
  has loaded it sets \<^verbatim>\<open>isRunning\<close> and the feedback text; when access is refused it reports
  the error. \<^verbatim>\<open>stopExercise\<close> clears \<^verbatim>\<open>isRunning\<close>.
\<close>

datatype webcam = Granted | Refused

fun startExercise :: "webcam \<Rightarrow> app \<Rightarrow> app" where
  "startExercise Granted s =
     s\<lparr> isRunning := True, postureFeedbackText := ''Starting detection...'',
        postureFeedbackClass := ''feedback-text'' \<rparr>"
| "startExercise Refused s =
     s\<lparr> postureFeedbackText := ''Error accessing webcam'',
        postureFeedbackClass := ''feedback-text feedback-incorrect'' \<rparr>"

definition stopExercise :: "app \<Rightarrow> app" where
  "stopExercise s =
     s\<lparr> isRunning := False, postureFeedbackText := ''Detection stopped'',
        postureFeedbackClass := ''feedback-text'' \<rparr>"

text \<open>Everything that can happen to the page after it has loaded.\<close>

datatype event = StartClicked webcam | StopClicked | AnimationFrame joint_frame

fun step :: "event \<Rightarrow> app \<Rightarrow> app" where
  "step (StartClicked w) s = startExercise w s"
| "step StopClicked s = stopExercise s"
| "step (AnimationFrame frame) s = detectPose frame s"

fun run :: "event list \<Rightarrow> app \<Rightarrow> app" where
  "run [] s = s"
| "run (e # es) s = run es (step e s)"

text \<open>
  A frame given by its shoulder, elbow and wrist, the three joints the angle is taken from;
  the other joints stay at the origin.
\<close>

definition arm :: "real \<Rightarrow> real \<Rightarrow> real \<Rightarrow> real \<Rightarrow> real \<Rightarrow> real \<Rightarrow> joint_frame" where
  "arm sx sy ex ey wx wy =
     \<lparr> shoulders = \<lparr> px = Fin sx, py = Fin sy \<rparr>,
       elbows = \<lparr> px = Fin ex, py = Fin ey \<rparr>,
       wrists = \<lparr> px = Fin wx, py = Fin wy \<rparr>,
       hips = origin, knees = origin, ankles = origin \<rparr>"

section \<open>Facts about one tick\<close>

lemma classifyPose_Fin:
  "fst (classifyPose (Fin a)) =
     (if a < 90 then Some Down else if 160 < a then Some Up else None)"
  by (simp add: classifyPose_def jgt_def)

lemma classifyPose_NaN:
  "classifyPose NaN = (None, ''Continue your movement'', ''feedback-text'')"
  by (simp add: classifyPose_def jgt_def)

lemma lastPoseState_checkExerciseForm:
  "lastPoseState (checkExerciseForm s) = fst (classifyPose (currentAngle s))"
  by (simp add: checkExerciseForm_def Let_def split: prod.splits)

lemma repsCount_checkExerciseForm:
  "repsCount (checkExerciseForm s) =
     (if lastPoseState s = Some Down \<and> fst (classifyPose (currentAngle s)) = Some Up
      then repsCount s + 1 else repsCount s)"
  by (simp add: checkExerciseForm_def Let_def split: prod.splits)

lemma postureFeedbackText_checkExerciseForm:
  "postureFeedbackText (checkExerciseForm s) = fst (snd (classifyPose (currentAngle s)))"
  by (simp add: checkExerciseForm_def Let_def split: prod.splits)

lemma currentAngle_setCurrentAngle:
  "currentAngle (setCurrentAngle angle s) = Math_round angle"
  by (simp add: setCurrentAngle_def)

lemma lastPoseState_tick: "lastPoseState (tick angle s) = phase angle"
  by (simp add: tick_def setCurrentAngle_def lastPoseState_checkExerciseForm phase_def)

lemma repsCount_tick:
  "repsCount (tick angle s) =
     (if lastPoseState s = Some Down \<and> phase angle = Some Up
      then repsCount s + 1 else repsCount s)"
  by (simp add: tick_def setCurrentAngle_def repsCount_checkExerciseForm phase_def)

text \<open>On a running page, an animation frame is a tick on the elbow angle of that frame.\<close>

lemma detectPose_running:
  "isRunning s \<Longrightarrow>
   detectPose frame s =
     tick (calculateJointAngle (px (shoulders frame)) (py (shoulders frame))
                               (px (elbows frame)) (py (elbows frame))
                               (px (wrists frame)) (py (wrists frame)))
          (s\<lparr> joints := frame \<rparr>)"
  by (simp add: detectPose_def calculateAngle_def tick_def Let_def)

lemma phase_Fin:
  "phase (Fin a) = (if a < 89.5 then Some Down else if 160.5 \<le> a then Some Up else None)"
  by (simp add: phase_def classifyPose_Fin round_def)

lemma phase_NaN: "phase NaN = None"
  by (simp add: phase_def classifyPose_NaN)

lemma tracker_startExercise:
  "repsCount (startExercise w s) = repsCount s"
  "lastPoseState (startExercise w s) = lastPoseState s"
  "currentAngle (startExercise w s) = currentAngle s"
  by (cases w; simp)+

lemma tracker_stopExercise:
  "repsCount (stopExercise s) = repsCount s"
  "lastPoseState (stopExercise s) = lastPoseState s"
  "currentAngle (stopExercise s) = currentAngle s"
  by (simp_all add: stopExercise_def)

lemma repsCount_detectPose: "repsCount s \<le> repsCount (detectPose frame s)"
  by (simp add: detectPose_def repsCount_checkExerciseForm calculateAngle_def
      setCurrentAngle_def Let_def)

lemma repsCount_step: "repsCount s \<le> repsCount (step e s)"
  by (cases e) (simp_all add: tracker_startExercise tracker_stopExercise repsCount_detectPose)

lemma repsCount_run: "repsCount s \<le> repsCount (run es s)"
proof (induction es arbitrary: s)
  case Nil
  show ?case by simp
next
  case (Cons e es)
  have "repsCount s \<le> repsCount (step e s)" by (rule repsCount_step)
  also have "\<dots> \<le> repsCount (run es (step e s))" by (rule Cons.IH)
  finally show ?case by simp
qed

lemma repsCount_ticks: "repsCount s \<le> repsCount (ticks angles s)"
proof (induction angles arbitrary: s)
  case Nil
  show ?case by simp
next
  case (Cons a angles)
  have "repsCount s \<le> repsCount (tick a s)" by (simp add: repsCount_tick)
  also have "\<dots> \<le> repsCount (ticks angles (tick a s))" by (rule Cons.IH)
  finally show ?case by simp
qed

lemma postureFeedbackText_tick:
  "postureFeedbackText (tick angle s) = fst (snd (classifyPose (Math_round angle)))"
  by (simp add: tick_def postureFeedbackText_checkExerciseForm currentAngle_setCurrentAngle)

section \<open>Facts about the rounding\<close>

text \<open>
  What the proofs below need of \<open>binary64\<close>: how to evaluate it (on a value that is
  representable, and on a value inside a binade that is not on a tie), that the result of a
  rounding is representable (it is its own rounding, and so is its double unless that
  overflows), that a change of sign commutes with it, and its relative error.
\<close>

lemma nearest_even_unique:
  assumes "\<bar>y - of_int m\<bar> < 1 / 2"
  shows "nearest_even y = m"
proof (cases "of_int m \<le> y")
  case True
  with assms have "\<lfloor>y\<rfloor> = m" by (intro floor_unique) (simp_all add: abs_less_iff)
  with assms True show ?thesis by (simp add: nearest_even_def Let_def abs_less_iff)
next
  case False
  with assms have "\<lfloor>y\<rfloor> = m - 1" by (intro floor_unique) (simp_all add: abs_less_iff)
  with assms False show ?thesis by (simp add: nearest_even_def Let_def abs_less_iff)
qed

lemma nearest_even_of_int [simp]: "nearest_even (of_int m) = m"
  by (rule nearest_even_unique) simp

lemma nearest_even_error: "\<bar>of_int (nearest_even y) - y\<bar> \<le> 1 / 2"
proof -
  have "of_int \<lfloor>y\<rfloor> \<le> y" "y < of_int \<lfloor>y\<rfloor> + 1" by linarith+
  then show ?thesis by (auto simp add: nearest_even_def Let_def abs_le_iff)
qed

lemma nearest_even_ge: "of_int a \<le> y \<Longrightarrow> a \<le> nearest_even y"
proof -
  assume "of_int a \<le> y"
  then have "a \<le> \<lfloor>y\<rfloor>" by (simp add: le_floor_iff)
  then show ?thesis by (auto simp add: nearest_even_def Let_def)
qed

lemma nearest_even_le: "y \<le> of_int b \<Longrightarrow> nearest_even y \<le> b"
proof -
  assume b: "y \<le> of_int b"
  show ?thesis
  proof (cases "y = of_int b")
    case True
    then show ?thesis by simp
  next
    case False
    with b have "y < of_int b" by simp
    then have "\<lfloor>y\<rfloor> < b" by (simp add: floor_less_iff)
    then show ?thesis by (auto simp add: nearest_even_def Let_def)
  qed
qed

lemma two_powr_int: "(2::real) powr of_int k = 2 powi k"
  by (simp add: powr_real_of_int')

lemma two_powr_int1: "(2::real) powr (of_int k + 1) = 2 powi (k + 1)"
  using two_powr_int [of "k + 1"] by simp

lemma floor_log2_eq:
  assumes "0 < x" "2 powi k \<le> x" "x < 2 powi (k + 1)"
  shows "\<lfloor>log 2 x\<rfloor> = k"
  using assms by (simp add: floor_log_eq_powr_iff two_powr_int two_powr_int1)

lemma floor_log2_bounds:
  assumes "0 < x"
  shows "2 powi \<lfloor>log 2 x\<rfloor> \<le> x" "x < 2 powi (\<lfloor>log 2 x\<rfloor> + 1)"
proof -
  have "\<lfloor>log 2 x\<rfloor> = \<lfloor>log 2 x\<rfloor>" ..
  then have "2 powr of_int \<lfloor>log 2 x\<rfloor> \<le> x \<and> x < 2 powr (of_int \<lfloor>log 2 x\<rfloor> + 1)"
    using assms by (subst (asm) floor_log_eq_powr_iff) simp_all
  then show "2 powi \<lfloor>log 2 x\<rfloor> \<le> x" "x < 2 powi (\<lfloor>log 2 x\<rfloor> + 1)"
    by (simp_all add: two_powr_int two_powr_int1)
qed

lemma two_powi_less_iff: "(2::real) powi a < 2 powi b \<longleftrightarrow> a < b"
proof
  assume l: "(2::real) powi a < 2 powi b"
  show "a < b"
  proof (rule ccontr)
    assume "\<not> a < b"
    then have "(2::real) powi b \<le> 2 powi a" by (intro power_int_increasing) simp_all
    with l show False by simp
  qed
next
  assume "a < b"
  then show "(2::real) powi a < 2 powi b" by (intro power_int_strict_increasing) simp_all
qed

lemma two_powi_le_iff: "(2::real) powi a \<le> 2 powi b \<longleftrightarrow> a \<le> b"
  using two_powi_less_iff [of b a] by (simp add: not_less [symmetric])

text \<open>A value in a normal binade, not on a tie.\<close>

lemma round_magnitude_eqI:
  assumes q: "q = 2 powi e" and e: "- 1074 \<le> e"
    and lo: "2 ^ 52 * q \<le> x" and hi: "x < 2 ^ 53 * q"
    and m: "\<bar>x - of_int m * q\<bar> < q / 2"
  shows "round_magnitude x = of_int m * q"
proof -
  have qpos: "0 < q" by (simp add: q)
  then have "0 < 2 ^ 52 * q" by simp
  with lo have xpos: "0 < x" by linarith
  have "2 ^ 52 * q = 2 powi (e + 52)" "2 ^ 53 * q = 2 powi (e + 52 + 1)"
    by (simp_all add: q power_int_add)
  with lo hi have "\<lfloor>log 2 x\<rfloor> = e + 52"
    by (intro floor_log2_eq xpos) simp_all
  with e have ex: "max (\<lfloor>log 2 x\<rfloor> - 52) (- 1074) = e" by simp
  have "x / q - of_int m = (x - of_int m * q) / q"
    using qpos by (simp add: field_simps)
  then have "\<bar>x / q - of_int m\<bar> = \<bar>x - of_int m * q\<bar> / q"
    using qpos by (simp only: abs_divide abs_of_pos)
  also have "\<dots> < 1 / 2" using m qpos by (simp add: field_simps)
  finally have "nearest_even (x / q) = m" by (rule nearest_even_unique)
  then show ?thesis
    by (simp add: round_magnitude_def ex Let_def q)
qed

text \<open>A representable value is its own rounding.\<close>

lemma round_magnitude_representable:
  assumes x: "x = of_int m * 2 powi e" and m: "0 < m" "m < 2 ^ 53" and e: "- 1074 \<le> e"
  shows "round_magnitude x = x"
proof -
  define e' where "e' = max (\<lfloor>log 2 x\<rfloor> - 52) (- 1074)"
  have xpos: "0 < x" using m by (simp add: x)
  have "real_of_int m < 2 ^ 53" using m(2) by (simp flip: of_int_less_iff)
  then have "x < 2 ^ 53 * 2 powi e" by (simp add: x)
  also have "\<dots> = 2 powi (e + 53)" by (simp add: power_int_add)
  finally have "2 powi \<lfloor>log 2 x\<rfloor> < (2::real) powi (e + 53)"
    using floor_log2_bounds(1) [OF xpos] by simp
  then have "\<lfloor>log 2 x\<rfloor> < e + 53"
    by (simp add: two_powi_less_iff)
  with e have le: "e' \<le> e" by (simp add: e'_def)
  have "x / 2 powi e' = of_int m * 2 powi (e - e')"
    by (simp add: x power_int_diff)
  also have "\<dots> = of_int (m * 2 ^ nat (e - e'))"
    using le by (simp add: power_int_def)
  finally have "nearest_even (x / 2 powi e') = m * 2 ^ nat (e - e')"
    by (simp only: nearest_even_of_int)
  then have "round_magnitude x = of_int (m * 2 ^ nat (e - e')) * 2 powi e'"
    by (simp add: round_magnitude_def e'_def Let_def)
  also have "\<dots> = of_int m * (2 powi (e - e') * 2 powi e')"
    using le by (simp add: power_int_def)
  also have "\<dots> = x"
    by (simp add: x flip: power_int_add)
  finally show ?thesis .
qed


lemma nearest_even_zero [simp]: "nearest_even 0 = 0"
  using nearest_even_of_int [of 0] by simp

lemma round_magnitude_zero [simp]: "round_magnitude 0 = 0"
  by (simp add: round_magnitude_def)

text \<open>Every rounded magnitude is representable.\<close>

lemma round_magnitude_range:
  assumes "0 < x"
  shows "\<exists>m e. round_magnitude x = of_int m * 2 powi e \<and> 0 \<le> m \<and> m < 2 ^ 53 \<and> - 1074 \<le> e"
proof -
  define E where "E = \<lfloor>log 2 x\<rfloor>"
  define e where "e = max (E - 52) (- 1074)"
  define q :: real where "q = 2 powi e"
  define n where "n = nearest_even (x / q)"
  have qpos: "0 < q" by (simp add: q_def)
  have rm: "round_magnitude x = of_int n * q"
    by (simp add: round_magnitude_def n_def q_def e_def E_def Let_def)
  have e: "- 1074 \<le> e" "E + 1 \<le> e + 53" by (simp_all add: e_def)
  have "of_int 0 \<le> x / q" using assms qpos by simp
  then have n0: "0 \<le> n" unfolding n_def by (rule nearest_even_ge)
  have "x < 2 powi (E + 1)" using floor_log2_bounds(2) [OF assms] by (simp add: E_def)
  also have "\<dots> \<le> 2 powi (e + 53)" using e(2) by (simp add: two_powi_le_iff)
  also have "\<dots> = 2 ^ 53 * q" by (simp add: q_def power_int_add)
  finally have "x / q \<le> of_int (2 ^ 53)" using qpos by (simp add: field_simps)
  then have n53: "n \<le> 2 ^ 53" unfolding n_def by (rule nearest_even_le)
  show ?thesis
  proof (cases "n = 2 ^ 53")
    case True
    have a: "round_magnitude x = of_int (2 ^ 52) * 2 powi (e + 1)"
      by (simp add: rm True q_def power_int_add)
    have b: "(0::int) \<le> 2 ^ 52" "(2::int) ^ 52 < 2 ^ 53" by simp_all
    have c: "- 1074 \<le> e + 1" using e(1) by simp
    from a b c show ?thesis by blast
  next
    case False
    with n53 have "n < 2 ^ 53" by simp
    with n0 e(1) rm show ?thesis unfolding q_def by blast
  qed
qed

lemma round_magnitude_idem:
  assumes "0 < x"
  shows "round_magnitude (round_magnitude x) = round_magnitude x"
proof -
  obtain m e where w: "round_magnitude x = of_int m * 2 powi e"
    and m: "0 \<le> m" "m < 2 ^ 53" and e: "- 1074 \<le> e"
    using round_magnitude_range [OF assms] by blast
  show ?thesis
  proof (cases "m = 0")
    case True
    then show ?thesis by (simp add: w)
  next
    case False
    with m have "0 < m" by simp
    from round_magnitude_representable [OF w this m(2) e] show ?thesis .
  qed
qed

lemma round_magnitude_double:
  assumes "0 < x"
  shows "round_magnitude (2 * round_magnitude x) = 2 * round_magnitude x"
proof -
  obtain m e where w: "round_magnitude x = of_int m * 2 powi e"
    and m: "0 \<le> m" "m < 2 ^ 53" and e: "- 1074 \<le> e"
    using round_magnitude_range [OF assms] by blast
  show ?thesis
  proof (cases "m = 0")
    case True
    then show ?thesis by (simp add: w)
  next
    case False
    with m have m0: "0 < m" by simp
    have "2 * round_magnitude x = of_int m * 2 powi (e + 1)"
      by (simp add: w power_int_add)
    from round_magnitude_representable [OF this m0 m(2)] e show ?thesis by simp
  qed
qed

lemma round_magnitude_ge_powi:
  assumes k: "2 powi k \<le> x" "- 1022 \<le> k"
  shows "2 powi k \<le> round_magnitude x"
proof -
  define E where "E = \<lfloor>log 2 x\<rfloor>"
  define e where "e = max (E - 52) (- 1074)"
  define q :: real where "q = 2 powi e"
  define n where "n = nearest_even (x / q)"
  have rm: "round_magnitude x = of_int n * q"
    by (simp add: round_magnitude_def n_def q_def e_def E_def Let_def)
  have "(0::real) < 2 powi k" by simp
  with k(1) have xpos: "0 < x" by linarith
  have qpos: "0 < q" by (simp add: q_def)
  have "(2::real) powi k < 2 powi (E + 1)"
    using k(1) floor_log2_bounds(2) [OF xpos] by (simp add: E_def)
  then have kE: "k \<le> E" by (simp add: two_powi_less_iff)
  with k(2) have eE: "e \<le> E" by (simp add: e_def)
  have "of_int (2 ^ nat (E - e)) = (2::real) powi (E - e)"
    using eE by (simp add: power_int_def)
  also have "\<dots> = 2 powi E / q" by (simp add: q_def power_int_diff)
  also have "\<dots> \<le> x / q"
    using floor_log2_bounds(1) [OF xpos] qpos by (simp add: E_def divide_right_mono)
  finally have "2 ^ nat (E - e) \<le> n" unfolding n_def by (rule nearest_even_ge)
  then have "(2::real) powi (E - e) \<le> of_int n"
    using eE by (simp add: power_int_def flip: of_int_le_iff)
  then have "2 powi (E - e) * q \<le> of_int n * q"
    using qpos by simp
  moreover have "2 powi (E - e) * q = 2 powi E" by (simp add: q_def flip: power_int_add)
  moreover have "(2::real) powi k \<le> 2 powi E" using kE by (simp add: two_powi_le_iff)
  ultimately show ?thesis unfolding rm by linarith
qed

lemma round_magnitude_error:
  assumes x: "2 powi k \<le> x" "- 1022 \<le> k"
  shows "\<bar>round_magnitude x - x\<bar> \<le> x / 2 ^ 53"
proof -
  define E where "E = \<lfloor>log 2 x\<rfloor>"
  define q :: real where "q = 2 powi (E - 52)"
  define n where "n = nearest_even (x / q)"
  have "(0::real) < 2 powi k" by simp
  with x(1) have xpos: "0 < x" by linarith
  have qpos: "0 < q" by (simp add: q_def)
  have "(2::real) powi k < 2 powi (E + 1)"
    using x(1) floor_log2_bounds(2) [OF xpos] by (simp add: E_def)
  then have "k \<le> E" by (simp add: two_powi_less_iff)
  with x(2) have "max (E - 52) (- 1074) = E - 52" by simp
  then have rm: "round_magnitude x = of_int n * q"
    by (simp add: round_magnitude_def n_def q_def E_def Let_def)
  have "round_magnitude x - x = (of_int n - x / q) * q"
    using qpos by (simp add: rm field_simps)
  then have "\<bar>round_magnitude x - x\<bar> = \<bar>of_int n - x / q\<bar> * q"
    using qpos by (simp only: abs_mult abs_of_pos)
  also have "\<dots> \<le> 1 / 2 * q"
    using qpos nearest_even_error [of "x / q"] unfolding n_def
    by (intro mult_right_mono) simp_all
  also have "\<dots> = 2 powi E / 2 ^ 53" by (simp add: q_def power_int_diff)
  also have "\<dots> \<le> x / 2 ^ 53"
    using floor_log2_bounds(1) [OF xpos] by (simp add: E_def divide_right_mono)
  finally show ?thesis .
qed


lemma round_magnitude_nonneg: "0 \<le> x \<Longrightarrow> 0 \<le> round_magnitude x"
proof -
  assume "0 \<le> x"
  then have "of_int 0 \<le> x / 2 powi (max (\<lfloor>log 2 x\<rfloor> - 52) (- 1074))" by simp
  then have "0 \<le> nearest_even (x / 2 powi (max (\<lfloor>log 2 x\<rfloor> - 52) (- 1074)))"
    by (rule nearest_even_ge)
  then show ?thesis by (simp add: round_magnitude_def Let_def)
qed

lemma binary64_zero [simp]: "binary64 0 = Fin 0"
  by (simp add: binary64_def)

lemma binary64_minus:
  "binary64 (- x) =
     (case binary64 x of Fin w \<Rightarrow> Fin (- w) | PosInf \<Rightarrow> NegInf | NegInf \<Rightarrow> PosInf | NaN \<Rightarrow> NaN)"
  by (cases "x = 0"; cases "0 < x") (simp_all add: binary64_def)

text \<open>The result of a rounding is its own rounding, and so is its double below \<open>2\<^sup>1\<^sup>0\<^sup>2\<^sup>3\<close>.\<close>

lemma binary64_Fin_D:
  assumes "binary64 x = Fin w"
  shows "w = (if 0 \<le> x then round_magnitude \<bar>x\<bar> else - round_magnitude \<bar>x\<bar>)"
    and "round_magnitude \<bar>x\<bar> < 2 ^ 1024"
  using assms
  by (cases "x = 0"; cases "0 < x"; simp add: binary64_def not_le split: if_splits)+

lemma binary64_idem:
  assumes "binary64 x = Fin w"
  shows "binary64 w = Fin w"
proof (cases "x = 0")
  case True
  with assms show ?thesis by simp
next
  case False
  then have ax: "0 < \<bar>x\<bar>" by simp
  define r where "r = round_magnitude \<bar>x\<bar>"
  have r: "round_magnitude r = r" "0 \<le> r" "r < 2 ^ 1024"
    using round_magnitude_idem [OF ax] round_magnitude_nonneg [of "\<bar>x\<bar>"]
      binary64_Fin_D(2) [OF assms] by (simp_all add: r_def)
  have w: "w = r \<or> w = - r"
    using binary64_Fin_D(1) [OF assms] by (auto simp add: r_def)
  show ?thesis
  proof (cases "r = 0")
    case True
    with w show ?thesis by auto
  next
    case False
    with r w show ?thesis by (auto simp add: binary64_def)
  qed
qed

lemma binary64_double:
  assumes "binary64 x = Fin w" and small: "\<bar>w\<bar> < 2 ^ 1023"
  shows "binary64 (2 * w) = Fin (2 * w)"
proof (cases "x = 0")
  case True
  with assms show ?thesis by simp
next
  case False
  then have ax: "0 < \<bar>x\<bar>" by simp
  define r where "r = round_magnitude \<bar>x\<bar>"
  have r: "round_magnitude (2 * r) = 2 * r" "0 \<le> r"
    using round_magnitude_double [OF ax] round_magnitude_nonneg [of "\<bar>x\<bar>"]
    by (simp_all add: r_def)
  have w: "w = r \<or> w = - r"
    using binary64_Fin_D(1) [OF assms(1)] by (auto simp add: r_def)
  with small r(2) have "r < 2 ^ 1023" by auto
  then have r2: "2 * r < 2 ^ 1024" by simp
  show ?thesis
  proof (cases "r = 0")
    case True
    with w show ?thesis by auto
  next
    case False
    with r r2 w show ?thesis by (auto simp add: binary64_def)
  qed
qed

lemma binary64_huge:
  assumes "2 ^ 1024 \<le> x"
  shows "binary64 x = PosInf"
proof -
  have "(2::real) powi 1024 \<le> x" using assms by simp
  then have "2 powi 1024 \<le> round_magnitude x"
    by (rule round_magnitude_ge_powi) simp
  moreover have "(0::real) < 2 ^ 1024" by simp
  with assms have "0 < x" by linarith
  ultimately show ?thesis by (simp add: binary64_def)
qed

lemma binary64_square_huge:
  assumes "2 ^ 1023 \<le> \<bar>w\<bar>"
  shows "binary64 (w * w) = PosInf"
proof -
  have "(2::real) ^ 1024 \<le> 2 ^ 1023 * 2 ^ 1023" by simp
  also have "\<dots> \<le> \<bar>w\<bar> * \<bar>w\<bar>"
    using assms by (intro mult_mono) simp_all
  also have "\<dots> = w * w" by simp
  finally show ?thesis by (rule binary64_huge)
qed

text \<open>The relative error of a rounding in the normal range.\<close>

lemma binary64_near:
  assumes k: "2 powi k \<le> \<bar>x\<bar>" "- 1022 \<le> k" and hi: "\<bar>x\<bar> \<le> 2 ^ 1023"
  shows "\<exists>w. binary64 x = Fin w \<and> \<bar>w - x\<bar> \<le> \<bar>x\<bar> / 2 ^ 53"
proof -
  define r where "r = round_magnitude \<bar>x\<bar>"
  have err: "\<bar>r - \<bar>x\<bar>\<bar> \<le> \<bar>x\<bar> / 2 ^ 53"
    unfolding r_def using k by (rule round_magnitude_error)
  have "\<bar>x\<bar> / 2 ^ 53 \<le> \<bar>x\<bar> / 1"
    by (intro divide_left_mono) simp_all
  with err have "r \<le> 2 * \<bar>x\<bar>" by linarith
  also have "\<dots> \<le> 2 * 2 ^ 1023" using hi by simp
  finally have r: "r \<le> 2 ^ 1024" by simp
  have "r \<noteq> 2 ^ 1024"
  proof
    assume "r = 2 ^ 1024"
    with err have "2 ^ 1024 - \<bar>x\<bar> \<le> \<bar>x\<bar> / 2 ^ 53" by linarith
    moreover have "\<bar>x\<bar> / 2 ^ 53 \<le> 2 ^ 1023 / 2 ^ 53"
      using hi by (intro divide_right_mono) simp_all
    ultimately have "(2::real) ^ 1024 \<le> 2 ^ 1023 + 2 ^ 1023 / 2 ^ 53"
      using hi by linarith
    then show False by simp
  qed
  with r have small: "\<not> 2 ^ 1024 \<le> r" by simp
  have "(0::real) < 2 powi k" by simp
  with k(1) have "0 < \<bar>x\<bar>" by linarith
  then have x0: "x \<noteq> 0" by simp
  show ?thesis
  proof (cases "0 < x")
    case True
    with small err show ?thesis by (simp add: binary64_def r_def)
  next
    case False
    with x0 have neg: "x < 0" by simp
    with err have "\<bar>- r - x\<bar> \<le> \<bar>x\<bar> / 2 ^ 53" by linarith
    with small neg show ?thesis by (simp add: binary64_def r_def)
  qed
qed

text \<open>Evaluating a rounding: a value in a normal binade that is not on a tie.\<close>

lemma binary64_eqI:
  assumes q: "q = 2 powi e" and e: "- 1074 \<le> e" "e \<le> 970"
    and lo: "2 ^ 52 * q \<le> \<bar>x\<bar>" and hi: "\<bar>x\<bar> < 2 ^ 53 * q"
    and m: "\<bar>x - of_int m * q\<bar> < q / 2"
  shows "binary64 x = Fin (of_int m * q)"
proof -
  have qpos: "0 < q" by (simp add: q)
  then have "0 < 2 ^ 52 * q" by simp
  with lo have "0 < \<bar>x\<bar>" by linarith
  then have x0: "x \<noteq> 0" by simp
  have "(2::real) powi e \<le> 2 powi 970" using e(2) by (simp only: two_powi_le_iff)
  then have q970: "q \<le> 2 ^ 970" by (simp add: q)
  have fin: "r < 2 ^ 1024" if "\<bar>r - \<bar>x\<bar>\<bar> < q / 2" for r
  proof -
    from that hi have "r < 2 ^ 53 * q + q / 2" by linarith
    also have "\<dots> \<le> (2 ^ 53 + 1) * q" using qpos by (simp add: algebra_simps)
    also have "\<dots> \<le> (2 ^ 53 + 1) * 2 ^ 970" using q970 by (intro mult_left_mono) simp_all
    also have "\<dots> < 2 ^ 1024" by simp
    finally show ?thesis .
  qed
  show ?thesis
  proof (cases "0 < x")
    case True
    with lo hi m have "round_magnitude \<bar>x\<bar> = of_int m * q"
      by (intro round_magnitude_eqI [OF q e(1)]) simp_all
    moreover from m True have "of_int m * q < 2 ^ 1024"
      by (intro fin) (simp only: abs_of_pos abs_minus_commute)
    ultimately show ?thesis using True by (simp add: binary64_def)
  next
    case False
    with x0 have neg: "x < 0" by simp
    have "\<bar>x\<bar> - of_int (- m) * q = - (x - of_int m * q)"
      using neg by simp
    with m have "\<bar>\<bar>x\<bar> - of_int (- m) * q\<bar> < q / 2"
      by (simp only: abs_minus)
    then have c: "\<bar>\<bar>x\<bar> - of_int (- m) * q\<bar> < q / 2" .
    with lo hi have rm: "round_magnitude \<bar>x\<bar> = of_int (- m) * q"
      by (intro round_magnitude_eqI [OF q e(1)]) simp_all
    moreover from c have "of_int (- m) * q < 2 ^ 1024"
      by (intro fin) (simp only: abs_minus_commute)
    ultimately show ?thesis using neg by (simp add: binary64_def)
  qed
qed

text \<open>Evaluating a rounding: a representable value.\<close>

lemma binary64_exact:
  assumes x: "x = of_int m * 2 powi e" and m: "\<bar>m\<bar> < 2 ^ 53" and e: "- 1074 \<le> e" "e \<le> 971"
  shows "binary64 x = Fin x"
proof (cases "m = 0")
  case True
  then show ?thesis by (simp add: x)
next
  case False
  have ax: "\<bar>x\<bar> = of_int \<bar>m\<bar> * 2 powi e" by (simp add: x abs_mult)
  have mpos: "0 < \<bar>m\<bar>" using False by simp
  have rm: "round_magnitude \<bar>x\<bar> = \<bar>x\<bar>"
    using ax mpos m e(1) by (rule round_magnitude_representable)
  have "real_of_int \<bar>m\<bar> < 2 ^ 53" using m by (simp flip: of_int_less_iff)
  moreover have "(2::real) powi e \<le> 2 powi 971" using e(2) by (simp only: two_powi_le_iff)
  ultimately have "of_int \<bar>m\<bar> * 2 powi e < 2 ^ 53 * (2::real) powi 971"
    by (intro mult_less_le_imp_less) simp_all
  then have "of_int \<bar>m\<bar> * 2 powi e < (2::real) ^ 1024" by simp
  then have "\<bar>x\<bar> < 2 ^ 1024" unfolding ax .
  then have small: "\<not> 2 ^ 1024 \<le> round_magnitude \<bar>x\<bar>" unfolding rm by simp
  have x0: "x \<noteq> 0" using False by (simp add: x)
  show ?thesis
  proof (cases "0 < x")
    case True
    with small rm show ?thesis by (simp add: binary64_def)
  next
    case False
    with x0 have "x < 0" by simp
    with small rm show ?thesis by (simp add: binary64_def)
  qed
qed

lemma binary64_of_int:
  "\<bar>n\<bar> < 2 ^ 53 \<Longrightarrow> binary64 (of_int n) = Fin (of_int n)"
  by (rule binary64_exact [where m = n and e = 0]) simp_all


section \<open>The angle computation\<close>

subsection \<open>For all inputs\<close>

lemma binary64_nonneg: "0 \<le> x \<Longrightarrow> binary64 x \<noteq> NegInf"
  by (cases "x = 0") (auto simp add: binary64_def elim: signed_inf.elims)

lemma jadd_commute: "jadd x y = jadd y x"
  by (cases x; cases y) (simp_all add: add.commute)

lemma jmul_commute: "jmul x y = jmul y x"
  by (cases x; cases y) (simp_all add: mult.commute)

lemma Math_pow2_jsub_swap: "Math_pow2 (jsub x y) = Math_pow2 (jsub y x)"
proof (cases x; cases y)
  fix a b
  assume xy: "x = Fin a" "y = Fin b"
  have "binary64 (b - a) =
    (case binary64 (a - b) of Fin w \<Rightarrow> Fin (- w) | PosInf \<Rightarrow> NegInf | NegInf \<Rightarrow> PosInf
     | NaN \<Rightarrow> NaN)"
    using binary64_minus [of "a - b"] by simp
  then show ?thesis
    by (cases "binary64 (a - b)") (simp_all add: xy)
qed simp_all

lemma side_value_sqrt: "side_value (Math_sqrt z)"
proof (cases z)
  case (Fin a)
  show ?thesis
  proof (cases "a < 0")
    case True
    with Fin show ?thesis by (simp add: side_value_def)
  next
    case False
    then have "binary64 (sqrt a) \<noteq> NegInf" by (intro binary64_nonneg) simp
    with Fin False show ?thesis
      by (cases "binary64 (sqrt a)") (auto simp add: side_value_def)
  qed
qed (simp_all add: side_value_def)

lemma binary64_not_NaN: "binary64 x \<noteq> NaN"
  by (cases "0 < x") (simp_all add: binary64_def)

lemma square_cases:
  obtains "jmul (Fin d) (Fin d) = PosInf"
  | w where "jmul (Fin d) (Fin d) = Fin w" "binary64 w = Fin w"
proof (cases "binary64 (d * d)")
  case NaN
  then show ?thesis by (simp add: binary64_not_NaN)
next
  case NegInf
  moreover have "binary64 (d * d) \<noteq> NegInf" by (intro binary64_nonneg) simp
  ultimately show ?thesis by simp
next
  case PosInf
  then show ?thesis using that(1) by simp
next
  case (Fin w)
  then show ?thesis using that(2) [of w] binary64_idem [of "d * d" w] by simp
qed

lemma Math_acos_signed: "Math_acos (signed_inf p) = NaN"
  by (cases p) simp_all

text \<open>Once the numerator is NaN or plus infinity, the angle is NaN.\<close>

lemma acos_div_NaN:
  assumes "n = NaN \<or> n = PosInf"
  shows "Math_acos (jdiv n d) = NaN"
  using assms by (cases d) (auto elim: signed_inf.elims split: if_splits simp: Math_acos_signed)


lemma numerator_overflow:
  assumes "jmul a a = NaN \<or> jmul a a = PosInf"
  shows "jsub (jadd (jmul a a) cc) bb = NaN \<or> jsub (jadd (jmul a a) cc) bb = PosInf"
    and "jsub (jadd cc (jmul a a)) bb = NaN \<or> jsub (jadd cc (jmul a a)) bb = PosInf"
  using assms by (cases cc; cases bb; auto)+

lemma side_value_square:
  assumes "side_value a"
  obtains "jmul a a = NaN \<or> jmul a a = PosInf"
  | d where "a = Fin d" "\<bar>d\<bar> < 2 ^ 1023" "binary64 (2 * d) = Fin (2 * d)"
proof -
  consider "a = NaN" | "a = PosInf" | x d where "a = Fin d" "binary64 x = Fin d"
    using assms unfolding side_value_def by blast
  then show ?thesis
  proof cases
    case 1
    then show ?thesis using that(1) by simp
  next
    case 2
    then show ?thesis using that(1) by simp
  next
    case 3
    show ?thesis
    proof (cases "\<bar>d\<bar> < 2 ^ 1023")
      case True
      with 3 binary64_double [of x d] show ?thesis using that(2) by blast
    next
      case False
      then have "binary64 (d * d) = PosInf" by (intro binary64_square_huge) simp
      with 3 show ?thesis using that(1) by simp
    qed
  qed
qed

text \<open>The cosine rule does not depend on the order of the two sides at the vertex.\<close>

lemma cosine_swap:
  assumes a: "side_value a" and c: "side_value c"
  shows "Math_acos (jdiv (jsub (jadd (jmul a a) (jmul c c)) bb) (jmul (jmul (Fin 2) a) c)) =
         Math_acos (jdiv (jsub (jadd (jmul c c) (jmul a a)) bb) (jmul (jmul (Fin 2) c) a))"
proof -
  from a show ?thesis
  proof (rule side_value_square)
    assume "jmul a a = NaN \<or> jmul a a = PosInf"
    from numerator_overflow [OF this] show ?thesis
      by (simp only: acos_div_NaN)
  next
    fix d
    assume d: "a = Fin d" "\<bar>d\<bar> < 2 ^ 1023" "binary64 (2 * d) = Fin (2 * d)"
    from c show ?thesis
    proof (rule side_value_square)
      assume "jmul c c = NaN \<or> jmul c c = PosInf"
      from numerator_overflow [OF this] show ?thesis
        by (simp only: acos_div_NaN)
    next
      fix g
      assume g: "c = Fin g" "\<bar>g\<bar> < 2 ^ 1023" "binary64 (2 * g) = Fin (2 * g)"
      have "jmul (jmul (Fin 2) (Fin d)) (Fin g) = binary64 (2 * d * g)"
        "jmul (jmul (Fin 2) (Fin g)) (Fin d) = binary64 (2 * g * d)"
        by (simp_all only: jmul.simps d(3) g(3))
      moreover have "2 * d * g = 2 * g * d" by simp
      ultimately have "jmul (jmul (Fin 2) a) c = jmul (jmul (Fin 2) c) a"
        by (simp only: d(1) g(1))
      then show ?thesis by (simp only: jadd_commute [of "jmul c c"])
    qed
  qed
qed

lemma calculateJointAngle_swap:
  "calculateJointAngle x3 y3 x2 y2 x1 y1 = calculateJointAngle x1 y1 x2 y2 x3 y3"
  unfolding calculateJointAngle_def Let_def
  by (simp only: Math_pow2_jsub_swap [of x2 x1] Math_pow2_jsub_swap [of y2 y1]
      Math_pow2_jsub_swap [of x3 x2] Math_pow2_jsub_swap [of y3 y2]
      Math_pow2_jsub_swap [of x3 x1] Math_pow2_jsub_swap [of y3 y1]
      cosine_swap [OF side_value_sqrt side_value_sqrt])

lemma zero_side_cases:
  "Math_sqrt (jadd (Math_pow2 (jsub x x)) (Math_pow2 (jsub y y))) = NaN \<or>
   Math_sqrt (jadd (Math_pow2 (jsub x x)) (Math_pow2 (jsub y y))) = Fin 0"
  by (cases x; cases y) simp_all

lemma jmul_zero_cases: "jmul s (Fin 0) = NaN \<or> jmul s (Fin 0) = Fin 0"
  "jmul (Fin 0) s = NaN \<or> jmul (Fin 0) s = Fin 0"
  by (cases s; simp)+

lemma zero_numerator:
  assumes "side_value s"
  shows "jsub (jadd (jmul s s) (Fin 0)) (jmul s s) = NaN \<or>
         jsub (jadd (jmul s s) (Fin 0)) (jmul s s) = PosInf \<or>
         jsub (jadd (jmul s s) (Fin 0)) (jmul s s) = Fin 0"
proof -
  consider "s = NaN" | "s = PosInf" | d where "s = Fin d"
    using assms unfolding side_value_def by blast
  then show ?thesis
  proof cases
    case 3
    show ?thesis
      by (rule square_cases [of d]) (simp_all add: 3)
  qed simp_all
qed

lemma zero_over_zero:
  assumes "n = NaN \<or> n = PosInf \<or> n = Fin 0" and "d = NaN \<or> d = Fin 0"
  shows "Math_acos (jdiv n d) = NaN"
  using assms by auto

lemma cosine_rule_zero_c:
  assumes s: "side_value s" and z: "z = NaN \<or> z = Fin 0"
  shows "Math_acos (jdiv (jsub (jadd (jmul s s) (jmul z z)) (jmul s s))
                        (jmul (jmul (Fin 2) s) z)) = NaN"
proof (cases "z = NaN")
  case True
  have "jsub (jadd (jmul s s) NaN) (jmul s s) = NaN" by (cases "jmul s s") simp_all
  then show ?thesis by (simp add: True)
next
  case False
  with z have z0: "z = Fin 0" by simp
  show ?thesis
    unfolding z0 using zero_numerator [OF s] jmul_zero_cases(1) [of "jmul (Fin 2) s"]
    by (simp only: jmul.simps mult_zero_left binary64_zero) (rule zero_over_zero)
qed

lemma cosine_rule_zero_a:
  assumes s: "side_value s" and z: "z = NaN \<or> z = Fin 0"
  shows "Math_acos (jdiv (jsub (jadd (jmul z z) (jmul s s)) (jmul s s))
                        (jmul (jmul (Fin 2) z) s)) = NaN"
proof (cases "z = NaN")
  case True
  then show ?thesis by simp
next
  case False
  with z have z0: "z = Fin 0" by simp
  have "jmul (jmul (Fin 2) (Fin 0)) s = jmul (Fin 0) s" by simp
  then show ?thesis
    unfolding z0 using zero_numerator [OF s] jmul_zero_cases(2) [of s]
    by (simp only: jmul.simps mult_zero_left binary64_zero jadd_commute [of "Fin 0"])
       (rule zero_over_zero)
qed

lemma vertex_on_first: "calculateJointAngle x1 y1 x1 y1 x3 y3 = NaN"
  unfolding calculateJointAngle_def Let_def
  by (simp only: cosine_rule_zero_c [OF side_value_sqrt zero_side_cases] jmul.simps)

lemma vertex_on_second: "calculateJointAngle x1 y1 x3 y3 x3 y3 = NaN"
  unfolding calculateJointAngle_def Let_def
  by (simp only: cosine_rule_zero_a [OF side_value_sqrt zero_side_cases] jmul.simps)

subsection \<open>Evaluating the computation\<close>

text \<open>
  On given coordinates the computation is evaluated one operation at a time. A result that
  is not exact is given by its integer significand \<open>m\<close> and its exponent \<open>e\<close>: the value
  lies in the binade of \<open>2\<^sup>e\<close> and is nearer to \<open>m \<cdot> 2\<^sup>e\<close> than half of \<open>2\<^sup>e\<close>.
\<close>

lemma binary64_numeral:
  "numeral n < (2::int) ^ 53 \<Longrightarrow> binary64 (numeral n) = Fin (numeral n)"
  using binary64_of_int [of "numeral n"] by simp

lemma binary64_neg_numeral:
  "numeral n < (2::int) ^ 53 \<Longrightarrow> binary64 (- numeral n) = Fin (- numeral n)"
  using binary64_of_int [of "- numeral n"] by simp

lemma binary64_one: "binary64 1 = Fin 1" "binary64 (- 1) = Fin (- 1)"
  using binary64_of_int [of 1] binary64_of_int [of "- 1"] by simp_all

lemmas binary64_small = binary64_numeral binary64_neg_numeral binary64_one

lemma degrees_per_radian:
  "jdiv (Fin 180) Math_PI = Fin (1007958012753983 / 2 ^ 44)"
proof -
  have "binary64 (180 / (884279719003555 / 2 ^ 48)) =
      Fin (of_int 8063664102031864 * (1 / 2 ^ 47))"
    by (rule binary64_eqI [where e = "- 47"]) simp_all
  then show ?thesis by (simp add: Math_PI_def)
qed

lemma folded_arm:
  "calculateJointAngle (Fin 1) (Fin 0) (Fin 0) (Fin 0) (Fin 1) (Fin 0) = Fin 0"
  by (simp add: calculateJointAngle_def Let_def degrees_per_radian binary64_small)

lemma coinciding_end_points_value:
  "calculateJointAngle (Fin 0) (Fin 0) (Fin 1) (Fin 0) (Fin 0) (Fin 0) = Fin 0"
  by (simp add: calculateJointAngle_def Let_def degrees_per_radian binary64_small)

lemma binary64_exact':
  assumes "x = of_int m * 2 powi e" "\<bar>m\<bar> < 2 ^ 53" "- 1074 \<le> e" "e \<le> 971" "y = x"
  shows "binary64 x = Fin y"
  using binary64_exact [OF assms(1-4)] assms(5) by simp

lemma binary64_eqI':
  assumes "q = 2 powi e" "- 1074 \<le> e" "e \<le> 970" "2 ^ 52 * q \<le> \<bar>x\<bar>" "\<bar>x\<bar> < 2 ^ 53 * q"
    "\<bar>x - of_int m * q\<bar> < q / 2" "y = of_int m * q"
  shows "binary64 x = Fin y"
  using binary64_eqI [OF assms(1-6)] assms(7) by simp

lemma binary64_sqrt_eqI:
  assumes q: "q = 2 powi e" and e: "- 1074 \<le> e" "e \<le> 970" and m: "0 < m"
    and lo: "(2 ^ 52 * q) * (2 ^ 52 * q) \<le> x" and hi: "x < (2 ^ 53 * q) * (2 ^ 53 * q)"
    and below: "((of_int m - 1 / 2) * q) * ((of_int m - 1 / 2) * q) < x"
    and above: "x < ((of_int m + 1 / 2) * q) * ((of_int m + 1 / 2) * q)"
    and y: "y = of_int m * q"
  shows "binary64 (sqrt x) = Fin y"
proof -
  have qpos: "0 < q" by (simp add: q)
  have m1: "1 \<le> real_of_int m" using m by simp
  have a: "2 ^ 52 * q \<le> sqrt x"
    using lo by (intro real_le_rsqrt) (simp add: power2_eq_square)
  have b: "sqrt x < 2 ^ 53 * q"
    using hi qpos by (intro real_less_lsqrt) (simp_all add: power2_eq_square)
  have c: "(of_int m - 1 / 2) * q < sqrt x"
    using below by (intro real_less_rsqrt) (simp add: power2_eq_square)
  have d: "sqrt x < (of_int m + 1 / 2) * q"
    using above qpos m1 by (intro real_less_lsqrt) (simp_all add: power2_eq_square)
  have "0 < 2 ^ 52 * q" using qpos by simp
  with a have "0 \<le> sqrt x" by linarith
  then have ax: "\<bar>sqrt x\<bar> = sqrt x" by simp
  define t where "t = of_int m * q"
  have "(of_int m - 1 / 2) * q = t - q / 2" "(of_int m + 1 / 2) * q = t + q / 2"
    by (simp_all add: t_def algebra_simps)
  with c d have "t - q / 2 < sqrt x" "sqrt x < t + q / 2" by simp_all
  then have "\<bar>sqrt x - t\<bar> < q / 2" by linarith
  then have "\<bar>sqrt x - of_int m * q\<bar> < q / 2" by (simp only: t_def)
  with a b ax have "binary64 (sqrt x) = Fin (of_int m * q)"
    by (intro binary64_eqI [OF q e]) simp_all
  with y show ?thesis by simp
qed

lemma right_angle_cosine:
  "calculateJointAngle (Fin 1) (Fin 0) (Fin 0) (Fin 0) (Fin 0) (Fin 1) =
     jmul (Math_acos (Fin (- (1 / 2 ^ 52)))) (jdiv (Fin 180) Math_PI)"
proof -
  have s1: "jsub (Fin 0) (Fin 0) = Fin 0" by (simp add: binary64_small)
  have s2: "jsub (Fin 0) (Fin 1) = Fin (- 1)" by (simp add: binary64_small)
  have s3: "Math_pow2 (Fin 0) = Fin 0" by (simp add: binary64_small)
  have s4: "Math_pow2 (Fin (- 1)) = Fin 1" by (simp add: binary64_small)
  have s5: "jadd (Fin 0) (Fin 1) = Fin 1" by (simp add: binary64_small)
  have s6: "Math_sqrt (Fin 1) = Fin 1" by (simp add: binary64_small)
  have s7: "jsub (Fin 1) (Fin 0) = Fin 1" by (simp add: binary64_small)
  have s8: "Math_pow2 (Fin 1) = Fin 1" by (simp add: binary64_small)
  have s9: "jadd (Fin 1) (Fin 1) = Fin 2" by (simp add: binary64_small)
  have s10: "Math_sqrt (Fin 2) = Fin (6369051672525773 / 2 ^ 52)"
  proof -
    have "Math_sqrt (Fin 2) = binary64 (sqrt 2)" by simp
    also have "\<dots> = Fin (6369051672525773 / 2 ^ 52)"
      by (rule binary64_sqrt_eqI [where m = "6369051672525773" and e = "-52" and q = "1 / 2 ^ 52"]) simp_all
    finally show ?thesis .
  qed
  have s11: "jadd (Fin 1) (Fin 0) = Fin 1" by (simp add: binary64_small)
  have s12: "jmul (Fin 1) (Fin 1) = Fin 1" by (simp add: binary64_small)
  have s13: "jmul (Fin (6369051672525773 / 2 ^ 52)) (Fin (6369051672525773 / 2 ^ 52)) = Fin (4503599627370497 / 2 ^ 51)"
  proof -
    have "jmul (Fin (6369051672525773 / 2 ^ 52)) (Fin (6369051672525773 / 2 ^ 52)) = binary64 ((6369051672525773 / 2 ^ 52) * (6369051672525773 / 2 ^ 52))" by simp
    also have "\<dots> = Fin (4503599627370497 / 2 ^ 51)"
      by (rule binary64_eqI' [where m = "4503599627370497" and e = "-51" and q = "1 / 2 ^ 51"]) simp_all
    finally show ?thesis .
  qed
  have s14: "jsub (Fin 2) (Fin (4503599627370497 / 2 ^ 51)) = Fin (- (1 / 2 ^ 51))"
  proof -
    have "jsub (Fin 2) (Fin (4503599627370497 / 2 ^ 51)) = binary64 (2 - (4503599627370497 / 2 ^ 51))" by simp
    also have "\<dots> = Fin (- (1 / 2 ^ 51))"
      by (rule binary64_exact' [where m = "-1" and e = "-51"]) simp_all
    finally show ?thesis .
  qed
  have s15: "jmul (Fin 2) (Fin 1) = Fin 2" by (simp add: binary64_small)
  have s16: "jdiv (Fin (- (1 / 2 ^ 51))) (Fin 2) = Fin (- (1 / 2 ^ 52))"
  proof -
    have "jdiv (Fin (- (1 / 2 ^ 51))) (Fin 2) = binary64 ((- (1 / 2 ^ 51)) / 2)" by simp
    also have "\<dots> = Fin (- (1 / 2 ^ 52))"
      by (rule binary64_exact' [where m = "-1" and e = "-52"]) simp_all
    finally show ?thesis .
  qed
  show ?thesis
    unfolding calculateJointAngle_def Let_def
    by (simp only: s1 s2 s3 s4 s5 s6 s7 s8 s9 s10 s11 s12 s13 s14 s15 s16)
qed

lemma stretched_arm_cosine:
  "calculateJointAngle (Fin (- 1)) (Fin 0) (Fin 0) (Fin 0) (Fin 1) (Fin 0) =
     jmul (Math_acos (Fin (- 1))) (jdiv (Fin 180) Math_PI)"
  by (simp add: calculateJointAngle_def Let_def binary64_small)

lemma rounding_leaves_the_domain:
  "calculateJointAngle (Fin (- 1)) (Fin (- 1)) (Fin 0) (Fin (1 / 2 ^ 60)) (Fin 3) (Fin 3) =
     NaN"
proof -
  have s1: "jsub (Fin 0) (Fin 3) = Fin (- 3)" by (simp add: binary64_small)
  have s2: "jsub (Fin (1 / 2 ^ 60)) (Fin 3) = Fin (- 3)"
  proof -
    have "jsub (Fin (1 / 2 ^ 60)) (Fin 3) = binary64 ((1 / 2 ^ 60) - 3)" by simp
    also have "\<dots> = Fin (- 3)"
      by (rule binary64_eqI' [where m = "-6755399441055744" and e = "-51" and q = "1 / 2 ^ 51"]) simp_all
    finally show ?thesis .
  qed
  have s3: "Math_pow2 (Fin (- 3)) = Fin 9" by (simp add: binary64_small)
  have s4: "jadd (Fin 9) (Fin 9) = Fin 18" by (simp add: binary64_small)
  have s5: "Math_sqrt (Fin 18) = Fin (4776788754394329 / 2 ^ 50)"
  proof -
    have "Math_sqrt (Fin 18) = binary64 (sqrt 18)" by simp
    also have "\<dots> = Fin (4776788754394329 / 2 ^ 50)"
      by (rule binary64_sqrt_eqI [where m = "4776788754394329" and e = "-50" and q = "1 / 2 ^ 50"]) simp_all
    finally show ?thesis .
  qed
  have s6: "jsub (Fin (- 1)) (Fin 3) = Fin (- 4)" by (simp add: binary64_small)
  have s7: "Math_pow2 (Fin (- 4)) = Fin 16" by (simp add: binary64_small)
  have s8: "jadd (Fin 16) (Fin 16) = Fin 32" by (simp add: binary64_small)
  have s9: "Math_sqrt (Fin 32) = Fin (6369051672525773 / 2 ^ 50)"
  proof -
    have "Math_sqrt (Fin 32) = binary64 (sqrt 32)" by simp
    also have "\<dots> = Fin (6369051672525773 / 2 ^ 50)"
      by (rule binary64_sqrt_eqI [where m = "6369051672525773" and e = "-50" and q = "1 / 2 ^ 50"]) simp_all
    finally show ?thesis .
  qed
  have s10: "jsub (Fin (- 1)) (Fin 0) = Fin (- 1)" by (simp add: binary64_small)
  have s11: "jsub (Fin (- 1)) (Fin (1 / 2 ^ 60)) = Fin (- 1)"
  proof -
    have "jsub (Fin (- 1)) (Fin (1 / 2 ^ 60)) = binary64 ((- 1) - (1 / 2 ^ 60))" by simp
    also have "\<dots> = Fin (- 1)"
      by (rule binary64_eqI' [where m = "-4503599627370496" and e = "-52" and q = "1 / 2 ^ 52"]) simp_all
    finally show ?thesis .
  qed
  have s12: "Math_pow2 (Fin (- 1)) = Fin 1" by (simp add: binary64_small)
  have s13: "jadd (Fin 1) (Fin 1) = Fin 2" by (simp add: binary64_small)
  have s14: "Math_sqrt (Fin 2) = Fin (6369051672525773 / 2 ^ 52)"
  proof -
    have "Math_sqrt (Fin 2) = binary64 (sqrt 2)" by simp
    also have "\<dots> = Fin (6369051672525773 / 2 ^ 52)"
      by (rule binary64_sqrt_eqI [where m = "6369051672525773" and e = "-52" and q = "1 / 2 ^ 52"]) simp_all
    finally show ?thesis .
  qed
  have s15: "jmul (Fin (4776788754394329 / 2 ^ 50)) (Fin (4776788754394329 / 2 ^ 50)) = Fin (5066549580791807 / 2 ^ 48)"
  proof -
    have "jmul (Fin (4776788754394329 / 2 ^ 50)) (Fin (4776788754394329 / 2 ^ 50)) = binary64 ((4776788754394329 / 2 ^ 50) * (4776788754394329 / 2 ^ 50))" by simp
    also have "\<dots> = Fin (5066549580791807 / 2 ^ 48)"
      by (rule binary64_eqI' [where m = "5066549580791807" and e = "-48" and q = "1 / 2 ^ 48"]) simp_all
    finally show ?thesis .
  qed
  have s16: "jmul (Fin (6369051672525773 / 2 ^ 52)) (Fin (6369051672525773 / 2 ^ 52)) = Fin (4503599627370497 / 2 ^ 51)"
  proof -
    have "jmul (Fin (6369051672525773 / 2 ^ 52)) (Fin (6369051672525773 / 2 ^ 52)) = binary64 ((6369051672525773 / 2 ^ 52) * (6369051672525773 / 2 ^ 52))" by simp
    also have "\<dots> = Fin (4503599627370497 / 2 ^ 51)"
      by (rule binary64_eqI' [where m = "4503599627370497" and e = "-51" and q = "1 / 2 ^ 51"]) simp_all
    finally show ?thesis .
  qed
  have s17: "jmul (Fin (6369051672525773 / 2 ^ 50)) (Fin (6369051672525773 / 2 ^ 50)) = Fin (4503599627370497 / 2 ^ 47)"
  proof -
    have "jmul (Fin (6369051672525773 / 2 ^ 50)) (Fin (6369051672525773 / 2 ^ 50)) = binary64 ((6369051672525773 / 2 ^ 50) * (6369051672525773 / 2 ^ 50))" by simp
    also have "\<dots> = Fin (4503599627370497 / 2 ^ 47)"
      by (rule binary64_eqI' [where m = "4503599627370497" and e = "-47" and q = "1 / 2 ^ 47"]) simp_all
    finally show ?thesis .
  qed
  have s18: "jadd (Fin (5066549580791807 / 2 ^ 48)) (Fin (4503599627370497 / 2 ^ 51)) = Fin (5629499534213119 / 2 ^ 48)"
  proof -
    have "jadd (Fin (5066549580791807 / 2 ^ 48)) (Fin (4503599627370497 / 2 ^ 51)) = binary64 ((5066549580791807 / 2 ^ 48) + (4503599627370497 / 2 ^ 51))" by simp
    also have "\<dots> = Fin (5629499534213119 / 2 ^ 48)"
      by (rule binary64_eqI' [where m = "5629499534213119" and e = "-48" and q = "1 / 2 ^ 48"]) simp_all
    finally show ?thesis .
  qed
  have s19: "jsub (Fin (5629499534213119 / 2 ^ 48)) (Fin (4503599627370497 / 2 ^ 47)) = Fin (- (3377699720527875 / 2 ^ 48))"
  proof -
    have "jsub (Fin (5629499534213119 / 2 ^ 48)) (Fin (4503599627370497 / 2 ^ 47)) = binary64 ((5629499534213119 / 2 ^ 48) - (4503599627370497 / 2 ^ 47))" by simp
    also have "\<dots> = Fin (- (3377699720527875 / 2 ^ 48))"
      by (rule binary64_exact' [where m = "-3377699720527875" and e = "-48"]) simp_all
    finally show ?thesis .
  qed
  have s20: "jmul (Fin 2) (Fin (4776788754394329 / 2 ^ 50)) = Fin (4776788754394329 / 2 ^ 49)"
  proof -
    have "jmul (Fin 2) (Fin (4776788754394329 / 2 ^ 50)) = binary64 (2 * (4776788754394329 / 2 ^ 50))" by simp
    also have "\<dots> = Fin (4776788754394329 / 2 ^ 49)"
      by (rule binary64_exact' [where m = "4776788754394329" and e = "-49"]) simp_all
    finally show ?thesis .
  qed
  have s21: "jmul (Fin (4776788754394329 / 2 ^ 49)) (Fin (6369051672525773 / 2 ^ 52)) = Fin 12"
  proof -
    have "jmul (Fin (4776788754394329 / 2 ^ 49)) (Fin (6369051672525773 / 2 ^ 52)) = binary64 ((4776788754394329 / 2 ^ 49) * (6369051672525773 / 2 ^ 52))" by simp
    also have "\<dots> = Fin 12"
      by (rule binary64_eqI' [where m = "6755399441055744" and e = "-49" and q = "1 / 2 ^ 49"]) simp_all
    finally show ?thesis .
  qed
  have s22: "jdiv (Fin (- (3377699720527875 / 2 ^ 48))) (Fin 12) = Fin (- (1125899906842625 / 2 ^ 50))"
  proof -
    have "jdiv (Fin (- (3377699720527875 / 2 ^ 48))) (Fin 12) = binary64 ((- (3377699720527875 / 2 ^ 48)) / 12)" by simp
    also have "\<dots> = Fin (- (1125899906842625 / 2 ^ 50))"
      by (rule binary64_exact' [where m = "-1125899906842625" and e = "-50"]) simp_all
    finally show ?thesis .
  qed
  show ?thesis
    unfolding calculateJointAngle_def Let_def
    by (simp only: s1 s2 s3 s4 s5 s6 s7 s8 s9 s10 s11 s12 s13 s14 s15 s16 s17 s18 s19 s20 s21 s22) simp
qed


text \<open>
  A lower bound of \<open>\<pi>\<close> from the sine of \<open>\<pi> / 24\<close>, by two half-angle steps from
  \<open>cos (\<pi> / 6)\<close>.
\<close>

lemma pi_ge_25_8: "25 / 8 \<le> pi"
proof -
  have "sqrt 3 \<le> 17321 / 10000" by (rule real_le_lsqrt) (simp_all add: power2_eq_square)
  moreover have "cos (pi / 6) = 2 * (cos (pi / 12))\<^sup>2 - 1"
    using cos_double_cos [of "pi / 12"] by simp
  ultimately have "(cos (pi / 12))\<^sup>2 \<le> (96594 / 100000)\<^sup>2"
    by (simp add: cos_30 power2_eq_square)
  then have "cos (pi / 12) \<le> 96594 / 100000" by (rule power2_le_imp_le) simp
  moreover have "cos (pi / 12) = 1 - 2 * (sin (pi / 24))\<^sup>2"
    using cos_double_sin [of "pi / 24"] by simp
  ultimately have "(1303 / 10000)\<^sup>2 \<le> (sin (pi / 24))\<^sup>2"
    by (simp add: power2_eq_square)
  moreover have "0 \<le> sin (pi / 24)" by (intro sin_ge_zero) simp_all
  ultimately have "1303 / 10000 \<le> sin (pi / 24)" by (rule power2_le_imp_le)
  also have "\<dots> \<le> pi / 24" by (intro sin_x_le_x) simp
  finally show ?thesis by simp
qed

text \<open>Bounds of a rounding from bounds of its argument.\<close>

lemma binary64_between:
  assumes "1 \<le> lo" "lo \<le> x" "x \<le> hi" "hi \<le> 1000"
  shows "\<exists>w. binary64 x = Fin w \<and> lo * (1 - 1 / 2 ^ 53) \<le> w \<and> w \<le> hi * (1 + 1 / 2 ^ 53)"
proof -
  have x1: "1 \<le> x" using assms by simp
  then have ax: "\<bar>x\<bar> = x" by simp
  have "(2::real) powi 0 \<le> \<bar>x\<bar>" using x1 by simp
  moreover have "\<bar>x\<bar> \<le> 2 ^ 1023" using assms by simp
  ultimately obtain w where w: "binary64 x = Fin w" "\<bar>w - x\<bar> \<le> \<bar>x\<bar> / 2 ^ 53"
    using binary64_near [of 0 x] by auto
  have "lo * (1 - 1 / 2 ^ 53) \<le> x * (1 - 1 / 2 ^ 53)"
    using assms(2) by (intro mult_right_mono) simp_all
  moreover have "x * (1 + 1 / 2 ^ 53) \<le> hi * (1 + 1 / 2 ^ 53)"
    using assms(3) by (intro mult_right_mono) simp_all
  moreover have "x * (1 - 1 / 2 ^ 53) = x - x / 2 ^ 53" "x * (1 + 1 / 2 ^ 53) = x + x / 2 ^ 53"
    by (simp_all add: algebra_simps)
  moreover have "x - x / 2 ^ 53 \<le> w" "w \<le> x + x / 2 ^ 53"
    using w(2) unfolding ax by linarith+
  ultimately show ?thesis using w(1) by auto
qed

lemma stretched_arm:
  "\<exists>r. calculateJointAngle (Fin (- 1)) (Fin 0) (Fin 0) (Fin 0) (Fin 1) (Fin 0) = Fin r \<and>
       170 \<le> r"
proof -
  have "25 / 8 \<le> pi" "pi \<le> 4" using pi_ge_25_8 pi_less_4 by simp_all
  then obtain p where p: "binary64 pi = Fin p"
    "25 / 8 * (1 - 1 / 2 ^ 53) \<le> p" "p \<le> 4 * (1 + 1 / 2 ^ 53)"
    using binary64_between [of "25 / 8" pi 4] by auto
  have "(179::real) \<le> 25 / 8 * (1 - 1 / 2 ^ 53) * (1007958012753983 / 2 ^ 44)" by simp
  also have "\<dots> \<le> p * (1007958012753983 / 2 ^ 44)"
    using p(2) by (intro mult_right_mono) simp_all
  finally have lo: "179 \<le> p * (1007958012753983 / 2 ^ 44)" .
  have "p * (1007958012753983 / 2 ^ 44) \<le> 4 * (1 + 1 / 2 ^ 53) * (1007958012753983 / 2 ^ 44)"
    using p(3) by (intro mult_right_mono) simp_all
  also have "\<dots> \<le> 230" by simp
  finally have hi: "p * (1007958012753983 / 2 ^ 44) \<le> 230" .
  obtain r where r: "binary64 (p * (1007958012753983 / 2 ^ 44)) = Fin r"
    "179 * (1 - 1 / 2 ^ 53) \<le> r"
    using binary64_between [OF _ lo hi] by auto
  have "Math_acos (Fin (- 1)) = Fin p" by (simp add: p(1))
  then have "calculateJointAngle (Fin (- 1)) (Fin 0) (Fin 0) (Fin 0) (Fin 1) (Fin 0) = Fin r"
    unfolding stretched_arm_cosine degrees_per_radian by (simp only: jmul.simps r(1))
  moreover have "170 \<le> r" using r(2) by simp
  ultimately show ?thesis by blast
qed

lemma arccos_small_negative:
  "25 / 16 \<le> arccos (- (1 / 2 ^ 52))" "arccos (- (1 / 2 ^ 52)) \<le> 8 / 3"
proof -
  have m: "arccos (- (1 / 2 ^ 52)) = pi - arccos (1 / 2 ^ 52)"
    by (rule arccos_minus) simp_all
  have "arccos (1 / 2 ^ 52) \<le> pi / 2" by (rule arccos_le_pi2) simp_all
  with pi_ge_25_8 show "25 / 16 \<le> arccos (- (1 / 2 ^ 52))" unfolding m by simp
  have "arccos (cos (pi / 3)) = pi / 3" by (rule arccos_cos) simp_all
  then have "arccos (1 / 2) = pi / 3" by (simp add: cos_60)
  moreover have "arccos (1 / 2) \<le> arccos (1 / 2 ^ 52)" by (rule arccos_le_arccos) simp_all
  ultimately show "arccos (- (1 / 2 ^ 52)) \<le> 8 / 3" unfolding m using pi_less_4 by simp
qed

lemma right_angle_arm:
  "\<exists>r. calculateJointAngle (Fin 1) (Fin 0) (Fin 0) (Fin 0) (Fin 0) (Fin 1) = Fin r \<and>
       179 / 2 \<le> r \<and> r < 321 / 2"
proof -
  obtain t where t: "binary64 (arccos (- (1 / 2 ^ 52))) = Fin t"
    "25 / 16 * (1 - 1 / 2 ^ 53) \<le> t" "t \<le> 8 / 3 * (1 + 1 / 2 ^ 53)"
    using binary64_between [of "25 / 16" "arccos (- (1 / 2 ^ 52))" "8 / 3"]
      arccos_small_negative by auto
  have "(8951::real) / 100 \<le> 25 / 16 * (1 - 1 / 2 ^ 53) * (1007958012753983 / 2 ^ 44)" by simp
  also have "\<dots> \<le> t * (1007958012753983 / 2 ^ 44)"
    using t(2) by (intro mult_right_mono) simp_all
  finally have lo: "8951 / 100 \<le> t * (1007958012753983 / 2 ^ 44)" .
  have "t * (1007958012753983 / 2 ^ 44) \<le> 8 / 3 * (1 + 1 / 2 ^ 53) * (1007958012753983 / 2 ^ 44)"
    using t(3) by (intro mult_right_mono) simp_all
  also have "\<dots> \<le> 153" by simp
  finally have hi: "t * (1007958012753983 / 2 ^ 44) \<le> 153" .
  obtain r where r: "binary64 (t * (1007958012753983 / 2 ^ 44)) = Fin r"
    "8951 / 100 * (1 - 1 / 2 ^ 53) \<le> r" "r \<le> 153 * (1 + 1 / 2 ^ 53)"
    using binary64_between [OF _ lo hi] by auto
  have "Math_acos (Fin (- (1 / 2 ^ 52))) = binary64 (arccos (- (1 / 2 ^ 52)))" by simp
  then have "Math_acos (Fin (- (1 / 2 ^ 52))) = Fin t" by (simp only: t(1))
  then have "calculateJointAngle (Fin 1) (Fin 0) (Fin 0) (Fin 0) (Fin 0) (Fin 1) = Fin r"
    unfolding right_angle_cosine degrees_per_radian by (simp only: jmul.simps r(1))
  moreover have "179 / 2 \<le> r" "r < 321 / 2" using r(2,3) by simp_all
  ultimately show ?thesis by blast
qed

subsection \<open>Three frames\<close>

text \<open>
  The arm folded (angle 0), at a right angle (angle 90 after \<^verbatim>\<open>Math.round\<close>) and stretched
  (angle 180 after \<^verbatim>\<open>Math.round\<close>), as the tracker classifies them.
\<close>

lemma phase_right_angle_arm:
  "phase (calculateJointAngle (Fin 1) (Fin 0) (Fin 0) (Fin 0) (Fin 0) (Fin 1)) = None"
  using right_angle_arm by (auto simp add: phase_Fin)

lemma phase_stretched_arm:
  "phase (calculateJointAngle (Fin (- 1)) (Fin 0) (Fin 0) (Fin 0) (Fin 1) (Fin 0)) = Some Up"
  using stretched_arm by (auto simp add: phase_Fin)

lemma isRunning_tick: "isRunning (tick angle s) = isRunning s"
  by (simp add: tick_def setCurrentAngle_def checkExerciseForm_def Let_def split: prod.splits)

lemmas session_simps =
  detectPose_running isRunning_tick tracker_startExercise tracker_stopExercise arm_def
  folded_arm phase_right_angle_arm phase_stretched_arm vertex_on_first
  repsCount_tick lastPoseState_tick phase_Fin phase_NaN loaded_def stopExercise_def

lemma jeq_same: "jeq a a = (a \<noteq> NaN)"
  by (cases a) simp_all

section \<open>Counting repetitions\<close>

text \<open>
  C5. On every tick the counter goes up by one if and only if the phase recorded by the
  previous tick is Down and the phase computed on this tick is Up; otherwise it keeps its
  value. For two consecutive ticks this reads: the second tick counts exactly when the first
  angle is classified Down and the second Up. So Up followed by Down does not count, and a
  tick whose own phase is Transitioning (\<open>None\<close>) does not count.
\<close>

theorem rep_counted_iff_down_then_up:
  "(repsCount (checkExerciseForm s) = repsCount s + 1) =
     (lastPoseState s = Some Down \<and> fst (classifyPose (currentAngle s)) = Some Up) \<and>
   (repsCount (tick angle s) = repsCount s + 1) =
     (lastPoseState s = Some Down \<and> phase angle = Some Up) \<and>
   (repsCount (tick angle s) = repsCount s) =
     (\<not> (lastPoseState s = Some Down \<and> phase angle = Some Up)) \<and>
   (repsCount (tick a2 (tick a1 s)) = repsCount (tick a1 s) + 1) =
     (phase a1 = Some Down \<and> phase a2 = Some Up)"
  by (simp add: repsCount_checkExerciseForm repsCount_tick lastPoseState_tick)

text \<open>
  C8. No event of the page ever lowers the counter: after any sequence of start clicks, stop
  clicks and animation frames, and after any sequence of tracker ticks, \<^verbatim>\<open>repsCount\<close> is at
  least what it was before.
\<close>

theorem repsCount_never_decreases:
  "repsCount s \<le> repsCount (run es s) \<and> repsCount s \<le> repsCount (ticks angles s)"
  by (simp add: repsCount_run repsCount_ticks)

text \<open>
  C1, as the code has it. Every tick stores the phase it computed in \<^verbatim>\<open>lastPoseState\<close>, also
  when that phase is Transitioning (\<open>None\<close>). When a tick with a Down angle is directly
  followed by a tick with an Up angle, the counter goes up exactly once, on the Up tick.
\<close>

theorem lastPoseState_is_phase_and_down_up_counts_once:
  "lastPoseState (tick angle s) = phase angle \<and>
   (phase a1 = Some Down \<and> phase a2 = Some Up \<longrightarrow>
      repsCount (tick a1 s) = repsCount s \<and>
      repsCount (tick a2 (tick a1 s)) = repsCount s + 1)"
  by (simp add: repsCount_tick lastPoseState_tick)

theorem lastPoseState_is_phase_and_down_up_counts_once_witness:
  "phase (Fin 80) = Some Down \<and> phase (Fin 170) = Some Up \<and>
   lastPoseState (tick (Fin 120) loaded) = None \<and>
   repsCount (tick (Fin 80) loaded) = 0 \<and>
   repsCount (tick (Fin 170) (tick (Fin 80) loaded)) = 1"
  using lastPoseState_is_phase_and_down_up_counts_once
    [of "Fin 120" loaded "Fin 80" "Fin 170"]
  by (simp add: phase_Fin loaded_def)

text \<open>
  With a Transitioning tick between the Down tick and the Up tick, the Up tick finds
  \<^verbatim>\<open>lastPoseState\<close> equal to \<^verbatim>\<open>null\<close> and the counter stays where it was. On the page: start,
  then frames with the arm folded, at a right angle, and stretched.
\<close>

theorem down_transitioning_up_counterexample:
  "phase (Fin 80) = Some Down \<and> phase (Fin 120) = None \<and> phase (Fin 170) = Some Up \<and>
   repsCount loaded = 0 \<and>
   repsCount (ticks [Fin 80, Fin 120, Fin 170] loaded) = 0 \<and>
   repsCount (run [StartClicked Granted, AnimationFrame (arm 1 0 0 0 1 0),
                   AnimationFrame (arm 1 0 0 0 0 1),
                   AnimationFrame (arm (- 1) 0 0 0 1 0)] loaded) = 0"
  by (simp add: session_simps)

section \<open>Classifying an angle\<close>

text \<open>
  C2, as the code has it. The comparisons are strict: the angle that \<^verbatim>\<open>checkExerciseForm\<close>
  reads is Down exactly when it is below 90, Up exactly when it is above 160, and
  Transitioning (\<open>None\<close>) exactly when it lies between 90 and 160, both ends included. That
  angle is the rounded joint angle, so a joint angle is Down exactly when it is below 89.5
  and Up exactly when it is at least 160.5.
\<close>

theorem classifyPose_strict_thresholds:
  "(fst (classifyPose (Fin a)) = Some Down) = (a < 90) \<and>
   (fst (classifyPose (Fin a)) = Some Up) = (160 < a) \<and>
   (fst (classifyPose (Fin a)) = None) = (90 \<le> a \<and> a \<le> 160) \<and>
   (phase (Fin a) = Some Down) = (a < 89.5) \<and>
   (phase (Fin a) = Some Up) = (160.5 \<le> a)"
  by (auto simp add: classifyPose_Fin phase_Fin)

text \<open>At the two thresholds themselves the angle is neither Down nor Up.\<close>

theorem thresholds_counterexample:
  "fst (classifyPose (Fin 90)) \<noteq> Some Down \<and> fst (classifyPose (Fin 160)) \<noteq> Some Up"
  by (simp add: classifyPose_Fin)

section \<open>Starting a session\<close>

text \<open>
  C3, as the code has it. The tracker's variables get the values \<^verbatim>\<open>lastPoseState = null\<close> and
  \<^verbatim>\<open>repsCount = 0\<close> once, when the script is loaded. \<^verbatim>\<open>startExercise\<close> does not touch them,
  whether the webcam is granted or refused: a Down tick directly followed by an Up tick after
  a start brings the counter to its earlier value plus one, which is 1 for the first session
  after loading.
\<close>

theorem startExercise_keeps_tracker_state:
  "lastPoseState loaded = None \<and> repsCount loaded = 0 \<and>
   repsCount (startExercise w s) = repsCount s \<and>
   lastPoseState (startExercise w s) = lastPoseState s \<and>
   repsCount (ticks [Fin 80, Fin 170] (startExercise w loaded)) = 1 \<and>
   (phase a1 = Some Down \<and> phase a2 = Some Up \<longrightarrow>
      repsCount (ticks [a1, a2] (startExercise w s)) = repsCount s + 1)"
  by (simp add: tracker_startExercise repsCount_tick lastPoseState_tick phase_Fin loaded_def)

theorem startExercise_keeps_tracker_state_witness:
  "phase (Fin 80) = Some Down \<and> phase (Fin 170) = Some Up \<and>
   repsCount (ticks [Fin 80, Fin 170] (startExercise Granted loaded)) = repsCount loaded + 1"
  using startExercise_keeps_tracker_state [of Granted loaded "Fin 80" "Fin 170"]
  by (simp add: phase_Fin)

text \<open>
  After one counted repetition a new start leaves the counter at 1 and the last phase at Up,
  and the next Down, Up pair brings the counter to 2. The same on the page: start, a frame
  with the arm folded, a frame with the arm stretched, stop, start again.
\<close>

theorem start_does_not_reset_counterexample:
  "repsCount (startExercise Granted (ticks [Fin 80, Fin 170] loaded)) = 1 \<and>
   lastPoseState (startExercise Granted (ticks [Fin 80, Fin 170] loaded)) = Some Up \<and>
   repsCount (ticks [Fin 80, Fin 170]
     (startExercise Granted (ticks [Fin 80, Fin 170] loaded))) = 2 \<and>
   repsCount (run [StartClicked Granted, AnimationFrame (arm 1 0 0 0 1 0),
                   AnimationFrame (arm (- 1) 0 0 0 1 0), StopClicked,
                   StartClicked Granted] loaded) = 1 \<and>
   repsCount (run [StartClicked Granted, AnimationFrame (arm 1 0 0 0 1 0),
                   AnimationFrame (arm (- 1) 0 0 0 1 0), StopClicked,
                   StartClicked Granted, AnimationFrame (arm 1 0 0 0 1 0),
                   AnimationFrame (arm (- 1) 0 0 0 1 0)] loaded) = 2"
  by (simp add: session_simps)

section \<open>A tick on NaN\<close>

text \<open>
  C4, as the code has it. On a NaN angle both comparisons are false, so the tick takes the
  last branch: its phase is \<open>None\<close>, the same as for an angle between the thresholds, and
  the feedback is the same text. The counter keeps its value. \<^verbatim>\<open>lastPoseState\<close> is set to
  \<open>None\<close>.
\<close>

theorem tick_NaN:
  "phase NaN = None \<and>
   repsCount (tick NaN s) = repsCount s \<and>
   lastPoseState (tick NaN s) = None \<and>
   postureFeedbackText (tick NaN s) = ''Continue your movement'' \<and>
   postureFeedbackText (tick NaN s) = postureFeedbackText (tick (Fin 120) s)"
  by (simp add: phase_NaN repsCount_tick lastPoseState_tick postureFeedbackText_tick
      classifyPose_NaN classifyPose_def jgt_def)

text \<open>
  A NaN tick after a Down tick changes \<^verbatim>\<open>lastPoseState\<close> from Down to \<^verbatim>\<open>null\<close>. On the page:
  a frame with the arm folded, then a frame whose elbow lies on the shoulder.
\<close>

theorem tick_NaN_overwrites_lastPoseState_counterexample:
  "lastPoseState (tick (Fin 80) loaded) = Some Down \<and>
   lastPoseState (tick NaN (tick (Fin 80) loaded)) \<noteq> lastPoseState (tick (Fin 80) loaded) \<and>
   lastPoseState (run [StartClicked Granted, AnimationFrame (arm 1 0 0 0 1 0)] loaded) =
     Some Down \<and>
   lastPoseState (run [StartClicked Granted, AnimationFrame (arm 1 0 0 0 1 0),
                       AnimationFrame (arm 0 0 0 0 1 0)] loaded) = None"
  by (simp add: session_simps)

section \<open>Rounding before classifying\<close>

text \<open>
  C10. The joint angle is rounded to the nearest integer before it is compared with the
  thresholds. Two angles with the same rounding give the same phase, and a tick on one
  leaves the program in the same state as a tick on the other: the same counter, the same
  last phase, the same feedback. 89.6 and 90.4 both round to 90.
\<close>

theorem same_rounding_same_tick:
  "Math_round (Fin 89.6) = Fin 90 \<and> Math_round (Fin 90.4) = Fin 90 \<and>
   (Math_round a1 = Math_round a2 \<longrightarrow> phase a1 = phase a2 \<and> tick a1 s = tick a2 s)"
  by (simp add: phase_def tick_def setCurrentAngle_def round_def)

theorem same_rounding_same_tick_witness:
  "Math_round (Fin 89.6) = Math_round (Fin 90.4) \<and>
   phase (Fin 89.6) = phase (Fin 90.4) \<and>
   tick (Fin 89.6) loaded = tick (Fin 90.4) loaded"
  using same_rounding_same_tick [of "Fin 89.6" "Fin 90.4" loaded]
  by (simp add: round_def)

section \<open>Swapping the end points\<close>

text \<open>
  C9, as the code has it. For all arguments, the call with the two end points swapped
  returns what the call in the given order returns: the same number, or NaN for both. The
  two results compare equal with \<^verbatim>\<open>==\<close> exactly when that result is not NaN.
\<close>

theorem swapped_end_points_same_result:
  "calculateJointAngle x3 y3 x2 y2 x1 y1 = calculateJointAngle x1 y1 x2 y2 x3 y3 \<and>
   jeq (calculateJointAngle x1 y1 x2 y2 x3 y3) (calculateJointAngle x3 y3 x2 y2 x1 y1) =
     (calculateJointAngle x1 y1 x2 y2 x3 y3 \<noteq> NaN)"
  by (simp only: calculateJointAngle_swap jeq_same simp_thms)

text \<open>
  The points \<open>(-1, -1)\<close>, \<open>(0, 2\<^sup>-\<^sup>6\<^sup>0)\<close> and \<open>(3, 3)\<close> are distinct and not on one line. The
  quotient of the cosine rule rounds to \<open>-1 - 2\<^sup>-\<^sup>5\<^sup>0\<close>, below the domain of \<^verbatim>\<open>Math.acos\<close>: the
  angle is NaN in both orders, and \<^verbatim>\<open>==\<close> is false.
\<close>

theorem swapped_end_points_counterexample:
  "(- 1 - 0) * (3 - 1 / 2 ^ 60) \<noteq> (- 1 - 1 / 2 ^ 60) * (3 - (0::real)) \<and>
   calculateJointAngle (Fin (- 1)) (Fin (- 1)) (Fin 0) (Fin (1 / 2 ^ 60)) (Fin 3) (Fin 3) = NaN \<and>
   \<not> jeq (calculateJointAngle (Fin (- 1)) (Fin (- 1)) (Fin 0) (Fin (1 / 2 ^ 60)) (Fin 3) (Fin 3))
          (calculateJointAngle (Fin 3) (Fin 3) (Fin 0) (Fin (1 / 2 ^ 60)) (Fin (- 1)) (Fin (- 1)))"
proof -
  have "(- 1 - 0) * (3 - 1 / 2 ^ 60) \<noteq> (- 1 - 1 / 2 ^ 60) * (3 - (0::real))" by simp
  then show ?thesis
    by (simp only: rounding_leaves_the_domain
        calculateJointAngle_swap [of "Fin 3" "Fin 3" "Fin 0" "Fin (1 / 2 ^ 60)" "Fin (- 1)" "Fin (- 1)"]
        jeq.simps simp_thms)
qed

section \<open>Coinciding points\<close>

text \<open>
  C6, as the code has it. When the vertex lies on one of the two end points
  (\<open>angleAt(p, p, q)\<close> and \<open>angleAt(q, p, p)\<close>), the result is NaN, whatever the coordinates:
  the quotient is \<open>0 / 0\<close>, or NaN already. When the two end points coincide and the vertex
  is another point (\<open>angleAt(p, q, p)\<close>), the angle is computed like any other and can be a
  number: for \<open>p = (1, 0)\<close> and \<open>q = (0, 0)\<close> it is 0.
\<close>

theorem angle_with_coinciding_points:
  "calculateJointAngle xp yp xp yp xq yq = NaN \<and>
   calculateJointAngle xq yq xp yp xp yp = NaN \<and>
   calculateJointAngle (Fin 1) (Fin 0) (Fin 0) (Fin 0) (Fin 1) (Fin 0) = Fin 0"
  by (simp only: vertex_on_first vertex_on_second folded_arm simp_thms)

text \<open>\<open>angleAt(p, q, p)\<close> for \<open>p = (0, 0)\<close> and \<open>q = (1, 0)\<close> is the number 0.\<close>

theorem angle_with_coinciding_end_points_counterexample:
  "calculateJointAngle (Fin 0) (Fin 0) (Fin 1) (Fin 0) (Fin 0) (Fin 0) = Fin 0"
  by (rule coinciding_end_points_value)

end
